theory Spec2Isabelle
  imports Complex_Main "HOL-Library.Log_Nat" "HOL-Library.Word"
begin

section \<open>JavaScript strings\<close>

text \<open>
  The plugin is the class \<open>LinkPreviewPlugin\<close> of the later of the two source versions (the one
  with the modifier-key settings); the earlier \<open>main.ts\<close> has the same bounds calculation, URL
  extraction and timers, without the modifier key and the ESC handler.

  A JavaScript string is a sequence of 16-bit code units; \<open>lit\<close> embeds an ASCII literal.
\<close>

type_synonym jschar = "16 word"
type_synonym jsstring = "jschar list"

definition lit :: "string \<Rightarrow> jsstring" where
  "lit s = map of_char s"

text \<open>
  \<open>String.prototype.trim\<close> removes WhiteSpace and LineTerminator code units from both ends:
  TAB, LF, VT, FF, CR, SP, NBSP, the space separators of the BMP, LS, PS and the BOM.
\<close>

definition isWhiteSpace :: "jschar \<Rightarrow> bool" where
  "isWhiteSpace c \<longleftrightarrow>
     c \<in> {0x09, 0x0A, 0x0B, 0x0C, 0x0D, 0x20, 0xA0, 0x1680,
          0x2000, 0x2001, 0x2002, 0x2003, 0x2004, 0x2005, 0x2006, 0x2007, 0x2008, 0x2009, 0x200A,
          0x2028, 0x2029, 0x202F, 0x205F, 0x3000, 0xFEFF}"

definition trim :: "jsstring \<Rightarrow> jsstring" where
  "trim s = rev (dropWhile isWhiteSpace (rev (dropWhile isWhiteSpace s)))"

definition startsWith :: "jsstring \<Rightarrow> jsstring \<Rightarrow> bool" where
  \<comment> \<open>\<open>s.startsWith(p)\<close>\<close>
  "startsWith s p \<longleftrightarrow> take (length p) s = p"

fun str_includes :: "jsstring \<Rightarrow> jsstring \<Rightarrow> bool" where
  \<comment> \<open>\<open>s.includes(sub)\<close>: \<open>sub\<close> occurs at some position of \<open>s\<close>\<close>
  "str_includes [] sub \<longleftrightarrow> sub = []"
| "str_includes (c # s) sub \<longleftrightarrow> startsWith (c # s) sub \<or> str_includes s sub"

text \<open>
  The regular expression \<open>/^https?:\/\//i\<close> has the \<open>i\<close> flag and no \<open>u\<close> flag: a code unit
  matches a pattern character when both have the same upper-case form, and a code unit
  from 128 on never canonicalises to an ASCII one. Against the ASCII pattern this is the
  comparison of the ASCII upper-case forms.
\<close>

definition asciiUpper :: "jschar \<Rightarrow> jschar" where
  "asciiUpper c = (if 0x61 \<le> c \<and> c \<le> 0x7A then c - 0x20 else c)"

definition matchIgnoreCase :: "jsstring \<Rightarrow> jsstring \<Rightarrow> bool" where
  \<comment> \<open>the literal pattern \<open>p\<close> matches at the start of \<open>s\<close>, ignoring ASCII case\<close>
  "matchIgnoreCase p s \<longleftrightarrow> map asciiUpper (take (length p) s) = map asciiUpper p"

definition httpPrefixTest :: "jsstring \<Rightarrow> bool" where
  \<comment> \<open>\<open>/^https?:\/\//i.test(s)\<close>\<close>
  "httpPrefixTest s \<longleftrightarrow> matchIgnoreCase (lit ''http://'') s \<or> matchIgnoreCase (lit ''https://'') s"

section \<open>JavaScript numbers\<close>

text \<open>
  A JavaScript number is an IEEE 754 binary64 value: \<open>NaN\<close>, one of the two infinities, or a
  finite value, given here by the real number it denotes. The two zeros are not told apart:
  no operation of the plugin distinguishes them. The numbers that come from outside (the
  rectangles, the window size, the pointer position, the settings) are binary64 values, and
  every operation rounds its result to one.

  \<open>fl\<close> rounds the exact result of an operation to the nearest binary64 value, ties to the
  even significand. \<open>expo x\<close> is the exponent \<open>e\<close> of a non-zero \<open>x\<close>, the integer with
  \<open>2 ^ e \<le> \<bar>x\<bar> < 2 ^ (e + 1)\<close>; the binary64 values around \<open>x\<close> are \<open>2 ^ (e - 52)\<close> apart, and
  \<open>2 ^ (- 1074)\<close> apart in the subnormal range below \<open>2 ^ (- 1022)\<close>; a result that rounds to
  \<open>2 ^ 1024\<close> or beyond overflows to an infinity.
\<close>

datatype jsnumber = NaN | PInf | NInf | Fin real

definition expo :: "real \<Rightarrow> int" where
  "expo x = (if 1 \<le> \<bar>x\<bar> then bitlen \<lfloor>\<bar>x\<bar>\<rfloor> - 1 else - bitlen (\<lceil>1 / \<bar>x\<bar>\<rceil> - 1))"

definition roundEven :: "real \<Rightarrow> int" where
  "roundEven r = (let f = \<lfloor>r\<rfloor>; d = r - of_int f
                  in if d < 1 / 2 then f else if 1 / 2 < d then f + 1
                     else if even f then f else f + 1)"

definition fl :: "real \<Rightarrow> jsnumber" where
  "fl x = (if x = 0 then Fin 0
           else let q = 2 powi (max (expo x) (- 1022) - 52);
                    y = of_int (roundEven (x / q)) * q
                in if 2 ^ 1024 \<le> y then PInf else if y \<le> - (2 ^ 1024) then NInf else Fin y)"

fun jsneg :: "jsnumber \<Rightarrow> jsnumber" where
  "jsneg (Fin x) = Fin (- x)"
| "jsneg PInf = NInf"
| "jsneg NInf = PInf"
| "jsneg NaN = NaN"

fun jsadd :: "jsnumber \<Rightarrow> jsnumber \<Rightarrow> jsnumber" where
  \<comment> \<open>\<open>a + b\<close>\<close>
  "jsadd (Fin x) (Fin y) = fl (x + y)"
| "jsadd NaN _ = NaN"
| "jsadd _ NaN = NaN"
| "jsadd PInf NInf = NaN"
| "jsadd NInf PInf = NaN"
| "jsadd PInf _ = PInf"
| "jsadd _ PInf = PInf"
| "jsadd NInf _ = NInf"
| "jsadd _ NInf = NInf"

definition jssub :: "jsnumber \<Rightarrow> jsnumber \<Rightarrow> jsnumber" where
  \<comment> \<open>\<open>a - b\<close>\<close>
  "jssub a b = jsadd a (jsneg b)"

fun jsmul :: "jsnumber \<Rightarrow> jsnumber \<Rightarrow> jsnumber" where
  \<comment> \<open>\<open>a * b\<close>\<close>
  "jsmul (Fin x) (Fin y) = fl (x * y)"
| "jsmul NaN _ = NaN"
| "jsmul _ NaN = NaN"
| "jsmul PInf (Fin y) = (if y = 0 then NaN else if 0 < y then PInf else NInf)"
| "jsmul NInf (Fin y) = (if y = 0 then NaN else if 0 < y then NInf else PInf)"
| "jsmul (Fin x) PInf = (if x = 0 then NaN else if 0 < x then PInf else NInf)"
| "jsmul (Fin x) NInf = (if x = 0 then NaN else if 0 < x then NInf else PInf)"
| "jsmul PInf PInf = PInf"
| "jsmul NInf NInf = PInf"
| "jsmul PInf NInf = NInf"
| "jsmul NInf PInf = NInf"

fun jslt :: "jsnumber \<Rightarrow> jsnumber \<Rightarrow> bool" where
  \<comment> \<open>\<open>a < b\<close>: false when either side is \<open>NaN\<close>\<close>
  "jslt (Fin x) (Fin y) \<longleftrightarrow> x < y"
| "jslt NaN _ \<longleftrightarrow> False"
| "jslt _ NaN \<longleftrightarrow> False"
| "jslt NInf NInf \<longleftrightarrow> False"
| "jslt NInf _ \<longleftrightarrow> True"
| "jslt _ NInf \<longleftrightarrow> False"
| "jslt PInf _ \<longleftrightarrow> False"
| "jslt _ PInf \<longleftrightarrow> True"

definition jsgt :: "jsnumber \<Rightarrow> jsnumber \<Rightarrow> bool" where
  \<comment> \<open>\<open>a > b\<close>\<close>
  "jsgt a b \<longleftrightarrow> jslt b a"

definition jsle :: "jsnumber \<Rightarrow> jsnumber \<Rightarrow> bool" where
  \<comment> \<open>\<open>a <= b\<close>\<close>
  "jsle a b \<longleftrightarrow> a \<noteq> NaN \<and> b \<noteq> NaN \<and> \<not> jslt b a"

definition jsge :: "jsnumber \<Rightarrow> jsnumber \<Rightarrow> bool" where
  \<comment> \<open>\<open>a >= b\<close>\<close>
  "jsge a b \<longleftrightarrow> jsle b a"

definition Math_min :: "jsnumber \<Rightarrow> jsnumber \<Rightarrow> jsnumber" where
  "Math_min a b = (if a = NaN \<or> b = NaN then NaN else if jslt b a then b else a)"

definition Math_max :: "jsnumber \<Rightarrow> jsnumber \<Rightarrow> jsnumber" where
  "Math_max a b = (if a = NaN \<or> b = NaN then NaN else if jslt a b then b else a)"

section \<open>URL normalisation\<close>

text \<open>
  \<open>new URL(trimmed).href\<close> is the platform's URL parser and serialiser, which is not code of
  the plugin: it is the parameter \<open>parse\<close>, \<open>None\<close> where the constructor throws (the
  \<open>catch\<close> branch returns \<open>null\<close>).
\<close>

definition normalizeUrl :: "(jsstring \<Rightarrow> jsstring option) \<Rightarrow> jsstring \<Rightarrow> jsstring option" where
  "normalizeUrl parse candidate =
     (let trimmed = trim candidate in
      if \<not> httpPrefixTest trimmed then None
      else parse trimmed)"

section \<open>The document, as the plugin reads it\<close>

text \<open>
  Elements of the host document are identified by a number. Of an element the plugin reads
  its interface (\<open>instanceof HTMLElement\<close>, \<open>instanceof HTMLAnchorElement\<close>), its local
  name, classes and attributes (for \<open>matches\<close>, \<open>closest\<close>, \<open>querySelector\<close>,
  \<open>getAttribute\<close>), the resolved \<open>href\<close> of an anchor, its \<open>textContent\<close>, the chain of its
  \<open>parentElement\<close>s (nearest first, up to the root element) and its descendants in document
  order.
\<close>

type_synonym elem = nat

record domElement =
  instHTMLElement :: bool
  instHTMLAnchorElement :: bool
  localName :: jsstring
  classList :: "jsstring list"
  attributes :: "(jsstring \<times> jsstring) list"
  href :: jsstring
  textContent :: "jsstring option"
  parentChain :: "elem list"
  descendants :: "elem list"

text \<open>
  An event target is an element of the document, a node inside the floating panel with the
  given number (the panel element itself, its wrapper, its iframe or its loading
  indicator), or something that is not an \<open>Element\<close>.
\<close>

datatype eventTarget = DocElement elem | PanelPart nat | NonElement

record DOMRect =
  rect_left :: jsnumber
  rect_top :: jsnumber
  rect_right :: jsnumber
  rect_bottom :: jsnumber

text \<open>
  The browser and the host application, as far as the plugin reads them.
\<close>

record environment =
  newURL :: "jsstring \<Rightarrow> jsstring option"
  node :: "elem \<Rightarrow> domElement"
  body :: elem
  editorValue :: "jsstring option"
  getBoundingClientRect :: "elem \<Rightarrow> DOMRect"
  panelClientRect :: "nat \<Rightarrow> DOMRect"
  innerWidth :: jsnumber
  innerHeight :: jsnumber
  elementFromPoint :: "jsnumber \<Rightarrow> jsnumber \<Rightarrow> eventTarget option"

definition getAttribute :: "domElement \<Rightarrow> jsstring \<Rightarrow> jsstring option" where
  "getAttribute e name = map_of (attributes e) name"

definition hasClass :: "domElement \<Rightarrow> jsstring \<Rightarrow> bool" where
  \<comment> \<open>\<open>classList.contains(name)\<close>\<close>
  "hasClass e name \<longleftrightarrow> name \<in> set (classList e)"

definition contains :: "environment \<Rightarrow> elem \<Rightarrow> eventTarget \<Rightarrow> bool" where
  \<comment> \<open>\<open>el.contains(other)\<close> for an element \<open>el\<close> of the document\<close>
  "contains env el other =
     (case other of
        DocElement r \<Rightarrow> el = r \<or> el \<in> set (parentChain (node env r))
      | PanelPart _ \<Rightarrow> False
      | NonElement \<Rightarrow> False)"

definition truthy :: "jsstring option \<Rightarrow> bool" where
  \<comment> \<open>a \<open>string | null\<close> in a condition: \<open>null\<close> and the empty string are falsy\<close>
  "truthy v \<longleftrightarrow> (case v of None \<Rightarrow> False | Some s \<Rightarrow> s \<noteq> [])"

section \<open>URL extractor\<close>

fun firstAttributeUrl :: "(jsstring \<Rightarrow> jsstring option) \<Rightarrow> domElement \<Rightarrow> jsstring list \<Rightarrow> jsstring option" where
  \<comment> \<open>the loop \<open>for (const attr of attributes)\<close>\<close>
  "firstAttributeUrl parse e [] = None"
| "firstAttributeUrl parse e (attr # rest) =
     (let value = getAttribute e attr;
          url = (if truthy value then normalizeUrl parse (the value) else None)
      in if truthy url then url else firstAttributeUrl parse e rest)"

definition querySelectorAnchor :: "environment \<Rightarrow> elem \<Rightarrow> elem option" where
  \<comment> \<open>\<open>ancestor.querySelector('a[href]')\<close>: the first descendant in document order\<close>
  "querySelectorAnchor env a =
     find (\<lambda>d. localName (node env d) = lit ''a'' \<and> getAttribute (node env d) (lit ''href'') \<noteq> None)
       (descendants (node env a))"

fun ancestorAnchorUrl :: "environment \<Rightarrow> elem list \<Rightarrow> jsstring option option" where
  \<comment> \<open>the loop over \<open>ancestor\<close>: \<open>Some r\<close> when it returns \<open>r\<close>, \<open>None\<close> when it ends\<close>
  "ancestorAnchorUrl env [] = None"
| "ancestorAnchorUrl env (ancestor # up) =
     (if ancestor = body env then None
      else if instHTMLAnchorElement (node env ancestor) \<and> href (node env ancestor) \<noteq> []
        then Some (normalizeUrl (newURL env) (href (node env ancestor)))
      else
        (case (if hasClass (node env ancestor) (lit ''external-link'')
                  \<or> hasClass (node env ancestor) (lit ''cm-link'')
               then querySelectorAnchor env ancestor else None) of
           Some anchor \<Rightarrow>
             if instHTMLAnchorElement (node env anchor) \<and> href (node env anchor) \<noteq> []
             then Some (normalizeUrl (newURL env) (href (node env anchor)))
             else ancestorAnchorUrl env up
         | None \<Rightarrow> ancestorAnchorUrl env up))"

definition extractUrlFromElement :: "environment \<Rightarrow> elem \<Rightarrow> jsstring option" where
  "extractUrlFromElement env element =
     (if instHTMLAnchorElement (node env element) then Some (href (node env element))
      else
        (case firstAttributeUrl (newURL env) (node env element)
                [lit ''data-href'', lit ''data-url'', lit ''href'', lit ''aria-label'', lit ''title''] of
           Some url \<Rightarrow> Some url
         | None \<Rightarrow>
            (case ancestorAnchorUrl env (element # parentChain (node env element)) of
               Some r \<Rightarrow> r
             | None \<Rightarrow>
                (case textContent (node env element) of
                   None \<Rightarrow> None
                 | Some t \<Rightarrow> if trim t \<noteq> [] then normalizeUrl (newURL env) (trim t) else None))))"

section \<open>Link locator\<close>

text \<open>
  The regular expression \<open>/\[([^\]]+)\]\((https?:\/\/[^)]+)\)/g\<close> matched at the start of a
  string. Each of its two greedy runs is followed by the one character the run excludes,
  so a run ends at the first \<open>]\<close> (or \<open>)\<close>) and no shorter run can match; \<open>https?\<close> followed
  by \<open>://\<close> matches exactly the prefixes \<open>https://\<close> and \<open>http://\<close>. The result is the
  first group, the second group and the length of the match.
\<close>

definition matchLinkAt :: "jsstring \<Rightarrow> (jsstring \<times> jsstring \<times> nat) option" where
  "matchLinkAt s =
     (case s of
        [] \<Rightarrow> None
      | c # r \<Rightarrow>
          let linkText = takeWhile (\<lambda>x. x \<noteq> 0x5D) r;
              afterText = dropWhile (\<lambda>x. x \<noteq> 0x5D) r;
              scheme = (if startsWith (drop 1 afterText) (lit ''(https://'') then lit ''https://''
                        else if startsWith (drop 1 afterText) (lit ''(http://'') then lit ''http://''
                        else []);
              afterScheme = drop (2 + length scheme) afterText;
              rest = takeWhile (\<lambda>x. x \<noteq> 0x29) afterScheme;
              afterUrl = dropWhile (\<lambda>x. x \<noteq> 0x29) afterScheme
          in if c = 0x5B \<and> linkText \<noteq> [] \<and> afterText \<noteq> [] \<and> scheme \<noteq> []
                \<and> rest \<noteq> [] \<and> afterUrl \<noteq> []
             then Some (linkText, scheme @ rest,
                        1 + length linkText + 2 + length scheme + length rest + 1)
             else None)"

fun scanLinks :: "nat \<Rightarrow> jsstring \<Rightarrow> (jsstring \<times> jsstring) list" where
  \<comment> \<open>the successive results of \<open>linkRegex.exec(content)\<close>; \<open>skip\<close> code units belong to the
      previous match\<close>
  "scanLinks skip [] = []"
| "scanLinks skip (c # r) =
     (if 0 < skip then scanLinks (skip - 1) r
      else
        (case matchLinkAt (c # r) of
           Some (linkText, url, n) \<Rightarrow> (linkText, url) # scanLinks (n - 1) r
         | None \<Rightarrow> scanLinks 0 r))"

definition getUrlFromEditorByText :: "environment \<Rightarrow> elem \<Rightarrow> jsstring option" where
  "getUrlFromEditorByText env element =
     (case editorValue env of
        None \<Rightarrow> None
      | Some content \<Rightarrow>
         (case textContent (node env element) of
            None \<Rightarrow> None
          | Some t \<Rightarrow>
              let displayText = trim t in
              if displayText = [] then None
              else
                (case find (\<lambda>(linkText, url). linkText = displayText
                                \<or> str_includes linkText displayText
                                \<or> str_includes displayText linkText)
                        (scanLinks 0 content) of
                   Some (linkText, url) \<Rightarrow> Some url
                 | None \<Rightarrow>
                     if startsWith displayText (lit ''http'')
                     then normalizeUrl (newURL env) displayText
                     else None)))"

definition matchesLinkSelector :: "environment \<Rightarrow> elem \<Rightarrow> bool" where
  \<comment> \<open>\<open>el.matches(LINK_SELECTOR)\<close>, one disjunct for each selector of the list\<close>
  "matchesLinkSelector env el =
     (let e = node env el in
        (localName e = lit ''a'' \<and> hasClass e (lit ''external-link''))
      \<or> (localName e = lit ''a'' \<and>
           (case getAttribute e (lit ''href'') of
              None \<Rightarrow> False
            | Some v \<Rightarrow> startsWith v (lit ''http'')))
      \<or> (localName e = lit ''span'' \<and> hasClass e (lit ''external-link''))
      \<or> hasClass e (lit ''cm-hmd-external-link'')
      \<or> (hasClass e (lit ''cm-underline'') \<and>
           (\<exists>a \<in> set (parentChain e). hasClass (node env a) (lit ''cm-link'')))
      \<or> hasClass e (lit ''cm-url'')
      \<or> getAttribute e (lit ''data-href'') \<noteq> None
      \<or> getAttribute e (lit ''data-url'') \<noteq> None)"

definition closestCmEditor :: "environment \<Rightarrow> elem \<Rightarrow> bool" where
  \<comment> \<open>\<open>el.closest('.cm-editor')\<close> is not \<open>null\<close>\<close>
  "closestCmEditor env el \<longleftrightarrow>
     (\<exists>a \<in> set (el # parentChain (node env el)). hasClass (node env a) (lit ''cm-editor''))"

fun findLinkLoop :: "environment \<Rightarrow> eventTarget option \<Rightarrow> elem list \<Rightarrow> (elem \<times> jsstring) option" where
  \<comment> \<open>the loop \<open>while (el && el !== document.body)\<close> over the target and its parent chain\<close>
  "findLinkLoop env relatedTarget [] = None"
| "findLinkLoop env relatedTarget (el # up) =
     (if el = body env then None
      else if \<not> instHTMLElement (node env el) then findLinkLoop env relatedTarget up
      else if \<not> matchesLinkSelector env el then findLinkLoop env relatedTarget up
      else if (case relatedTarget of None \<Rightarrow> False | Some r \<Rightarrow> contains env el r) then None
      else
        (let url0 = (if closestCmEditor env el then getUrlFromEditorByText env el else None);
             url = (if \<not> truthy url0 then extractUrlFromElement env el else url0)
         in if truthy url then Some (el, the url)
            else findLinkLoop env relatedTarget up))"

text \<open>
  A node of the floating panel (\<open>div.hover-popup\<close>, \<open>div.preview-iframe-wrapper\<close>, the
  \<open>iframe\<close>, \<open>div.preview-loading\<close>) matches no selector of the list and the panel is a
  child of the body, so the walk from such a node finds nothing.
\<close>

definition findLinkElement :: "environment \<Rightarrow> eventTarget \<Rightarrow> eventTarget option \<Rightarrow> (elem \<times> jsstring) option" where
  "findLinkElement env tgt relatedTarget =
     (case tgt of
        DocElement el \<Rightarrow> findLinkLoop env relatedTarget (el # parentChain (node env el))
      | PanelPart _ \<Rightarrow> None
      | NonElement \<Rightarrow> None)"

section \<open>Settings and the bounds calculator\<close>

datatype ModifierKeyType = ModMeta | ModCtrl | ModAlt | ModShift

text \<open>
  The two maxima are whatever the settings tab stored, \<open>Number(value)\<close> of the text typed:
  any number, \<open>NaN\<close> for text that is not a number. The hover delay is held as the number of
  milliseconds that \<open>setTimeout\<close> waits.
\<close>

record LinkPreviewSettings =
  maxPreviewHeight :: jsnumber
  maxPreviewWidth :: jsnumber
  hoverDelay :: nat
  requireModifierKey :: bool
  modifierKey :: ModifierKeyType
  closeOnModifierRelease :: bool

record previewBounds =
  left_px :: jsnumber
  top_px :: jsnumber
  width_px :: jsnumber
  height_px :: jsnumber
  showAbove :: bool

definition calculatePreviewBounds :: "LinkPreviewSettings \<Rightarrow> DOMRect \<Rightarrow> jsnumber \<Rightarrow> jsnumber \<Rightarrow> previewBounds" where
  \<comment> \<open>\<open>windowSize\<close> is passed as its \<open>width\<close> and \<open>height\<close>\<close>
  "calculatePreviewBounds st rect windowWidth windowHeight =
     (let margin = Fin 5;
          maxWidth = Math_min (maxPreviewWidth st) (jssub windowWidth (jsmul margin (Fin 2)));
          maxHeight = Math_min (maxPreviewHeight st) (jssub windowHeight (jsmul margin (Fin 2)));
          spaceBelow = jssub (jssub windowHeight (rect_bottom rect)) margin;
          spaceAbove = jssub (rect_top rect) margin;
          above = (jslt spaceBelow maxHeight \<and> jsgt spaceAbove spaceBelow);
          topPx = (if above then Math_max margin (jssub (jssub (rect_top rect) maxHeight) margin)
                   else Math_min (jsadd (rect_bottom rect) margin)
                          (jssub (jssub windowHeight maxHeight) margin));
          left0 = rect_left rect;
          left1 = (if jsgt (jsadd left0 maxWidth) (jssub windowWidth margin)
                   then jssub (jssub windowWidth maxWidth) margin else left0);
          leftPx = Math_max margin left1
      in \<lparr>left_px = leftPx, top_px = topPx, width_px = maxWidth, height_px = maxHeight,
          showAbove = above\<rparr>)"


section \<open>Panel lifecycle controller: state\<close>

text \<open>
  A floating panel, as \<open>showPreview\<close> builds it: the geometry written to \<open>cssText\<close>, the
  wrapper and its classes, the loading indicator, the iframe, and whether the panel is a
  child of \<open>document.body\<close>. A panel is identified by its position in the list of the panels
  created so far.
\<close>

record panel =
  geometry :: previewBounds
  wrapperClasses :: "jsstring list"
  loadingClasses :: "jsstring list"
  loadingText :: jsstring
  loadingAttached :: bool
  iframeSrc :: jsstring
  iframeClasses :: "jsstring list"
  attached :: bool

text \<open>
  The field \<open>activePreview\<close>. Its \<open>cleanup\<close> closure removes the panel \<open>element\<close> and clears
  the field, so it is determined by \<open>element\<close>.
\<close>

record preview =
  element :: nat
  link :: elem

text \<open>The three closures handed to \<open>setTimeout\<close>, with what each captures.\<close>

datatype callback = ShowPreview elem jsstring | CleanupCheck | Settle nat

record timer =
  timerId :: nat
  due :: nat
  callback :: callback

text \<open>
  The fields of the plugin, followed by the browser state it acts on: the clock (in ms),
  the pending timers in the order they were set, the next timer handle, the panels created
  so far, and the link elements carrying a \<open>handleMouseLeave\<close> listener (one entry for each
  listener).
\<close>

record state =
  settings :: LinkPreviewSettings
  activePreview :: "preview option"
  hoverTimeout :: "nat option"
  cleanupTimeout :: "nat option"
  lastMouseX :: jsnumber
  lastMouseY :: jsnumber
  env :: environment
  now :: nat
  timers :: "timer list"
  nextTimerId :: nat
  panels :: "panel list"
  leaveListeners :: "elem list"

definition initial :: "LinkPreviewSettings \<Rightarrow> environment \<Rightarrow> state" where
  "initial st e =
     \<lparr>settings = st, activePreview = None, hoverTimeout = None, cleanupTimeout = None,
      lastMouseX = Fin 0, lastMouseY = Fin 0, env = e, now = 0, timers = [], nextTimerId = 1,
      panels = [], leaveListeners = []\<rparr>"

definition isSet :: "nat option \<Rightarrow> bool" where
  \<comment> \<open>a \<open>number | undefined\<close> in a condition: \<open>undefined\<close> and \<open>0\<close> are falsy\<close>
  "isSet t \<longleftrightarrow> (case t of None \<Rightarrow> False | Some n \<Rightarrow> n \<noteq> 0)"

definition setTimeout :: "callback \<Rightarrow> nat \<Rightarrow> state \<Rightarrow> nat \<times> state" where
  \<comment> \<open>returns the handle, a positive number not used before\<close>
  "setTimeout cb delay s =
     (nextTimerId s,
      s\<lparr>timers := timers s @ [\<lparr>timerId = nextTimerId s, due = now s + delay, callback = cb\<rparr>],
        nextTimerId := Suc (nextTimerId s)\<rparr>)"

definition clearTimeout :: "nat \<Rightarrow> state \<Rightarrow> state" where
  "clearTimeout h s = s\<lparr>timers := filter (\<lambda>t. timerId t \<noteq> h) (timers s)\<rparr>"

definition updatePanel :: "nat \<Rightarrow> (panel \<Rightarrow> panel) \<Rightarrow> state \<Rightarrow> state" where
  \<comment> \<open>a change to a panel created earlier\<close>
  "updatePanel pid f s = s\<lparr>panels := (panels s)[pid := f (panels s ! pid)]\<rparr>"

definition detachPanel :: "nat \<Rightarrow> state \<Rightarrow> state" where
  \<comment> \<open>\<open>previewEl.remove()\<close>\<close>
  "detachPanel pid s = updatePanel pid (\<lambda>p. p\<lparr>attached := False\<rparr>) s"

definition cleanupActivePreview :: "state \<Rightarrow> state" where
  "cleanupActivePreview s =
     (let s1 = (case activePreview s of
                  None \<Rightarrow> s
                | Some p \<Rightarrow> (detachPanel (element p) s)\<lparr>activePreview := None\<rparr>);
          s2 = (if isSet (hoverTimeout s1)
                then (clearTimeout (the (hoverTimeout s1)) s1)\<lparr>hoverTimeout := None\<rparr>
                else s1)
      in if isSet (cleanupTimeout s2)
         then (clearTimeout (the (cleanupTimeout s2)) s2)\<lparr>cleanupTimeout := None\<rparr>
         else s2)"

definition createPreviewElement :: "state \<Rightarrow> DOMRect \<Rightarrow> previewBounds" where
  \<comment> \<open>the geometry of the new \<open>div.hover-popup\<close>\<close>
  "createPreviewElement s rect =
     calculatePreviewBounds (settings s) rect (innerWidth (env s)) (innerHeight (env s))"

definition showPreview :: "elem \<Rightarrow> jsstring \<Rightarrow> state \<Rightarrow> state" where
  "showPreview lnk url s =
     (let rect = getBoundingClientRect (env s) lnk;
          previewEl =
            \<lparr>geometry = createPreviewElement s rect,
             wrapperClasses = lit ''preview-iframe-wrapper'' #
               (if str_includes url (lit ''github.com'') then [lit ''github-preview''] else []),
             loadingClasses = [lit ''preview-loading'', lit ''loading-spinner''],
             loadingText = [],
             loadingAttached = True,
             iframeSrc = url,
             iframeClasses = [],
             attached = True\<rparr>
      in s\<lparr>panels := panels s @ [previewEl],
           activePreview := Some \<lparr>element = length (panels s), link = lnk\<rparr>\<rparr>)"

definition startCleanupTimer :: "state \<Rightarrow> state" where
  "startCleanupTimer s =
     (let s1 = (if isSet (cleanupTimeout s) then clearTimeout (the (cleanupTimeout s)) s else s);
          (h, s2) = setTimeout CleanupCheck 300 s1
      in s2\<lparr>cleanupTimeout := Some h\<rparr>)"

definition inRect :: "jsnumber \<Rightarrow> jsnumber \<Rightarrow> DOMRect \<Rightarrow> bool" where
  "inRect x y r \<longleftrightarrow>
     jsge x (rect_left r) \<and> jsle x (rect_right r) \<and> jsge y (rect_top r) \<and> jsle y (rect_bottom r)"

definition isMouseOverPreviewOrLink :: "state \<Rightarrow> bool" where
  "isMouseOverPreviewOrLink s =
     (case activePreview s of
        None \<Rightarrow> False
      | Some p \<Rightarrow>
          inRect (lastMouseX s) (lastMouseY s) (panelClientRect (env s) (element p))
          \<or> inRect (lastMouseX s) (lastMouseY s) (getBoundingClientRect (env s) (link p)))"

definition cleanupCheck :: "state \<Rightarrow> state" where
  \<comment> \<open>the callback of the timer set by \<open>startCleanupTimer\<close>\<close>
  "cleanupCheck s =
     (if activePreview s \<noteq> None \<and> isMouseOverPreviewOrLink s
      then s\<lparr>cleanupTimeout := None\<rparr>
      else (cleanupActivePreview s)\<lparr>cleanupTimeout := None\<rparr>)"

definition settle :: "nat \<Rightarrow> state \<Rightarrow> state" where
  \<comment> \<open>the callback set by \<open>iframe.onload\<close>\<close>
  "settle pid s =
     updatePanel pid (\<lambda>p. p\<lparr>iframeClasses := iframeClasses p @ [lit ''is-loaded''],
                            loadingAttached := False\<rparr>) s"

fun runCallback :: "callback \<Rightarrow> state \<Rightarrow> state" where
  "runCallback (ShowPreview lnk url) s = showPreview lnk url s"
| "runCallback CleanupCheck s = cleanupCheck s"
| "runCallback (Settle pid) s = settle pid s"

section \<open>Panel lifecycle controller: handlers\<close>

record mouseEvent =
  target :: eventTarget
  relatedTarget :: "eventTarget option"
  metaKey :: bool
  ctrlKey :: bool
  altKey :: bool
  shiftKey :: bool

definition isModifierKeyPressed :: "LinkPreviewSettings \<Rightarrow> mouseEvent \<Rightarrow> bool" where
  "isModifierKeyPressed st event =
     (case modifierKey st of
        ModMeta \<Rightarrow> metaKey event
      | ModCtrl \<Rightarrow> ctrlKey event
      | ModAlt \<Rightarrow> altKey event
      | ModShift \<Rightarrow> shiftKey event)"

definition isModifierKeyEvent :: "LinkPreviewSettings \<Rightarrow> jsstring \<Rightarrow> bool" where
  \<comment> \<open>the second argument is \<open>event.key\<close>\<close>
  "isModifierKeyEvent st key \<longleftrightarrow>
     key = (case modifierKey st of
              ModMeta \<Rightarrow> lit ''Meta''
            | ModCtrl \<Rightarrow> lit ''Control''
            | ModAlt \<Rightarrow> lit ''Alt''
            | ModShift \<Rightarrow> lit ''Shift'')"

definition previewContains :: "state \<Rightarrow> eventTarget \<Rightarrow> bool" where
  \<comment> \<open>\<open>this.activePreview?.element.contains(t)\<close>, \<open>undefined\<close> read as false\<close>
  "previewContains s t =
     (case activePreview s of
        None \<Rightarrow> False
      | Some p \<Rightarrow> t = PanelPart (element p))"

definition armShowTimer :: "elem \<Rightarrow> jsstring \<Rightarrow> state \<Rightarrow> state" where
  \<comment> \<open>\<open>this.hoverTimeout = window.setTimeout(() => this.showPreview(..), hoverDelay)\<close>\<close>
  "armShowTimer lnk url s =
     (let (h, s1) = setTimeout (ShowPreview lnk url) (hoverDelay (settings s)) s
      in s1\<lparr>hoverTimeout := Some h\<rparr>)"

definition handleLinkHover :: "mouseEvent \<Rightarrow> state \<Rightarrow> state" where
  "handleLinkHover event s =
     (if target event = NonElement then s
      else if previewContains s (target event) then s
      else if requireModifierKey (settings s) \<and> \<not> isModifierKeyPressed (settings s) event then s
      else
        (case findLinkElement (env s) (target event) (relatedTarget event) of
           None \<Rightarrow> s
         | Some (linkElement, url) \<Rightarrow>
             let s1 = (if isSet (hoverTimeout s) then clearTimeout (the (hoverTimeout s)) s else s)
             in if (case activePreview s1 of None \<Rightarrow> False | Some p \<Rightarrow> link p = linkElement)
                then (if isSet (cleanupTimeout s1)
                      then (clearTimeout (the (cleanupTimeout s1)) s1)\<lparr>cleanupTimeout := None\<rparr>
                      else s1)
                else
                  (let s2 = armShowTimer linkElement url (cleanupActivePreview s1)
                   in s2\<lparr>leaveListeners := leaveListeners s2 @ [linkElement]\<rparr>)))"

definition handleMouseLeave :: "elem \<Rightarrow> eventTarget option \<Rightarrow> state \<Rightarrow> state" where
  \<comment> \<open>one \<open>handleMouseLeave\<close> closure on \<open>linkElement\<close>; the second argument is
      \<open>e.relatedTarget\<close>\<close>
  "handleMouseLeave linkElement toElement s =
     (if (case toElement of None \<Rightarrow> False | Some t \<Rightarrow> previewContains s t) then s
      else
        (let s1 = startCleanupTimer s
         in s1\<lparr>leaveListeners := remove1 linkElement (leaveListeners s1)\<rparr>))"

definition dispatchMouseLeave :: "elem \<Rightarrow> eventTarget option \<Rightarrow> state \<Rightarrow> state" where
  \<comment> \<open>a \<open>mouseleave\<close> on a link element runs every listener it carries\<close>
  "dispatchMouseLeave lnk toElement s =
     fold (\<lambda>l. handleMouseLeave l toElement) (filter (\<lambda>l. l = lnk) (leaveListeners s)) s"

definition handleModifierKeyDown :: "state \<Rightarrow> state" where
  "handleModifierKeyDown s =
     (if activePreview s \<noteq> None then s
      else
        (case elementFromPoint (env s) (lastMouseX s) (lastMouseY s) of
           None \<Rightarrow> s
         | Some elementUnderCursor \<Rightarrow>
            (case findLinkElement (env s) elementUnderCursor None of
               None \<Rightarrow> s
             | Some (lnk, url) \<Rightarrow>
                 armShowTimer lnk url
                   (if isSet (hoverTimeout s) then clearTimeout (the (hoverTimeout s)) s else s))))"

definition handleModifierKeyUp :: "state \<Rightarrow> state" where
  "handleModifierKeyUp s =
     (if closeOnModifierRelease (settings s) then cleanupActivePreview s else s)"

definition keydown :: "jsstring \<Rightarrow> state \<Rightarrow> state" where
  \<comment> \<open>the \<open>keydown\<close> listener of \<open>registerGlobalHandler\<close>; the argument is \<open>e.key\<close>\<close>
  "keydown key s =
     (let s1 = (if key = lit ''Escape'' \<and> activePreview s \<noteq> None
                then cleanupActivePreview s else s)
      in if requireModifierKey (settings s1) \<and> isModifierKeyEvent (settings s1) key
         then handleModifierKeyDown s1 else s1)"

definition keyup :: "jsstring \<Rightarrow> state \<Rightarrow> state" where
  \<comment> \<open>the \<open>keyup\<close> listener of \<open>registerGlobalHandler\<close>\<close>
  "keyup key s =
     (if requireModifierKey (settings s) \<and> isModifierKeyEvent (settings s) key
      then handleModifierKeyUp s else s)"

definition mousemove :: "jsnumber \<Rightarrow> jsnumber \<Rightarrow> state \<Rightarrow> state" where
  "mousemove clientX clientY s = s\<lparr>lastMouseX := clientX, lastMouseY := clientY\<rparr>"

definition previewMouseEnter :: "state \<Rightarrow> state" where
  \<comment> \<open>the \<open>mouseenter\<close> listener of a panel\<close>
  "previewMouseEnter s =
     (if isSet (cleanupTimeout s)
      then (clearTimeout (the (cleanupTimeout s)) s)\<lparr>cleanupTimeout := None\<rparr>
      else s)"

definition iframeOnload :: "nat \<Rightarrow> state \<Rightarrow> state" where
  \<comment> \<open>\<open>iframe.onload\<close> of the panel: a plain \<open>setTimeout\<close> of 50 ms, its handle dropped\<close>
  "iframeOnload pid s = snd (setTimeout (Settle pid) 50 s)"

definition iframeOnerror :: "nat \<Rightarrow> state \<Rightarrow> state" where
  \<comment> \<open>\<open>iframe.onerror\<close> of the panel\<close>
  "iframeOnerror pid s = updatePanel pid (\<lambda>p. p\<lparr>loadingText := lit ''Failed to load preview''\<rparr>) s"

section \<open>The event loop\<close>

text \<open>
  The browser runs the pending timer with the least due time, the one set first among
  equals.
\<close>

fun earliest :: "timer list \<Rightarrow> timer option" where
  "earliest [] = None"
| "earliest (t # ts) =
     (case earliest ts of
        None \<Rightarrow> Some t
      | Some u \<Rightarrow> if due t \<le> due u then Some t else Some u)"

definition fireTimer :: "timer \<Rightarrow> state \<Rightarrow> state" where
  "fireTimer t s =
     runCallback (callback t) (s\<lparr>timers := remove1 t (timers s), now := max (now s) (due t)\<rparr>)"

lemma earliest_in_set: "earliest ts = Some t \<Longrightarrow> t \<in> set ts"
  by (induction ts arbitrary: t) (auto split: option.splits if_splits)

lemma timers_cleanupActivePreview_le:
  "length (timers (cleanupActivePreview s)) \<le> length (timers s)"
proof -
  have f: "\<And>h (ts :: timer list). length (filter (\<lambda>t. timerId t \<noteq> h) ts) \<le> length ts"
    by simp
  show ?thesis
    unfolding cleanupActivePreview_def Let_def clearTimeout_def detachPanel_def updatePanel_def
    by (auto split: option.splits intro: order_trans [OF f f] order_trans [OF f])
qed

lemma timers_runCallback_le:
  "length (timers (runCallback cb s)) \<le> length (timers s)"
proof (cases cb)
  case (ShowPreview lnk url)
  then show ?thesis by (simp add: showPreview_def Let_def)
next
  case CleanupCheck
  then show ?thesis
    using timers_cleanupActivePreview_le [of s] by (simp add: cleanupCheck_def)
next
  case (Settle pid)
  then show ?thesis by (simp add: settle_def updatePanel_def)
qed

lemma timers_fireTimer_less:
  assumes "earliest (timers s) = Some t"
  shows "length (timers (fireTimer t s)) < length (timers s)"
proof -
  from assms have "t \<in> set (timers s)" by (rule earliest_in_set)
  then have "length (remove1 t (timers s)) < length (timers s)"
    by (simp add: length_remove1) (cases "timers s"; simp)
  moreover have "length (timers (fireTimer t s)) \<le> length (remove1 t (timers s))"
    unfolding fireTimer_def
    using timers_runCallback_le
      [of "callback t" "s\<lparr>timers := remove1 t (timers s), now := max (now s) (due t)\<rparr>"]
    by simp
  ultimately show ?thesis by simp
qed

text \<open>
  Letting time pass up to the instant \<open>T\<close> runs every timer due by then, in order. No
  callback sets a timer, so this ends.
\<close>

function runUntil :: "nat \<Rightarrow> state \<Rightarrow> state" where
  "runUntil T s =
     (case earliest (timers s) of
        None \<Rightarrow> s\<lparr>now := max (now s) T\<rparr>
      | Some t \<Rightarrow>
          if due t \<le> T then runUntil T (fireTimer t s)
          else s\<lparr>now := max (now s) T\<rparr>)"
  by pat_completeness auto
termination
  by (relation "measure (\<lambda>(T, s). length (timers s))") (auto simp: timers_fireTimer_less)

declare runUntil.simps [simp del]

text \<open>
  What can happen to a loaded plugin: the four listeners of \<open>registerGlobalHandler\<close>, a
  \<open>mouseleave\<close> on a link element, the listeners and the iframe events of a panel created
  earlier, the passing of time (\<open>Elapse\<close> runs every timer that comes due in the interval,
  \<open>NextTimer\<close> waits for the next pending timer and runs that one), and changes made by
  others to the document, the layout or the settings.
\<close>

datatype event =
    MouseOver mouseEvent
  | MouseMove jsnumber jsnumber
  | KeyDown jsstring
  | KeyUp jsstring
  | MouseLeave elem "eventTarget option"
  | PanelMouseEnter nat
  | PanelMouseLeave nat
  | IframeLoad nat
  | IframeError nat
  | Elapse nat
  | NextTimer
  | EnvironmentChange environment
  | SettingsChange LinkPreviewSettings

fun step :: "event \<Rightarrow> state \<Rightarrow> state" where
  "step (MouseOver event) s = handleLinkHover event s"
| "step (MouseMove x y) s = mousemove x y s"
| "step (KeyDown key) s = keydown key s"
| "step (KeyUp key) s = keyup key s"
| "step (MouseLeave lnk toElement) s = dispatchMouseLeave lnk toElement s"
| "step (PanelMouseEnter pid) s = (if pid < length (panels s) then previewMouseEnter s else s)"
| "step (PanelMouseLeave pid) s = (if pid < length (panels s) then startCleanupTimer s else s)"
| "step (IframeLoad pid) s = (if pid < length (panels s) then iframeOnload pid s else s)"
| "step (IframeError pid) s = (if pid < length (panels s) then iframeOnerror pid s else s)"
| "step (Elapse d) s = runUntil (now s + d) s"
| "step NextTimer s = (case earliest (timers s) of None \<Rightarrow> s | Some t \<Rightarrow> fireTimer t s)"
| "step (EnvironmentChange e) s = s\<lparr>env := e\<rparr>"
| "step (SettingsChange st) s = s\<lparr>settings := st\<rparr>"

definition run :: "event list \<Rightarrow> state \<Rightarrow> state" where
  "run evs s = fold step evs s"

section \<open>The controller's invariant\<close>

text \<open>
  What holds of the timers, the two handles and the panels in every state the plugin can
  reach: handles are positive and never reused; a pending show timer is the one whose
  handle is in \<open>hoverTimeout\<close>, and then no preview is active; a pending hide timer is the one
  whose handle is in \<open>cleanupTimeout\<close>; the attached panels are exactly the panel of the
  active preview. The further definitions name parts of the handlers for the proofs.
\<close>

definition isShow :: "callback \<Rightarrow> bool" where
  "isShow cb = (case cb of ShowPreview _ _ \<Rightarrow> True | _ \<Rightarrow> False)"

definition wellFormed :: "state \<Rightarrow> bool" where
  "wellFormed s \<longleftrightarrow>
     0 < nextTimerId s
   \<and> distinct (map timerId (timers s))
   \<and> (\<forall>t \<in> set (timers s). 0 < timerId t \<and> timerId t < nextTimerId s)
   \<and> (\<forall>h. hoverTimeout s = Some h \<longrightarrow> 0 < h \<and> h < nextTimerId s)
   \<and> (\<forall>h. cleanupTimeout s = Some h \<longrightarrow> 0 < h \<and> h < nextTimerId s)
   \<and> (\<forall>t \<in> set (timers s). isShow (callback t) \<longleftrightarrow> hoverTimeout s = Some (timerId t))
   \<and> (\<forall>t \<in> set (timers s). callback t = CleanupCheck \<longleftrightarrow> cleanupTimeout s = Some (timerId t))
   \<and> ((\<exists>t \<in> set (timers s). isShow (callback t)) \<longrightarrow> activePreview s = None)
   \<and> (\<forall>p. activePreview s = Some p \<longrightarrow> element p < length (panels s))
   \<and> (\<forall>i < length (panels s). attached (panels s ! i) \<longleftrightarrow> (\<exists>p. activePreview s = Some p \<and> element p = i))"

text \<open>
  \<open>clearHover\<close> and \<open>clearCleanup\<close> are the statements \<open>if (h) window.clearTimeout(h)\<close> for the
  two handles, \<open>resetHover\<close> and \<open>resetCleanup\<close> the ones that also clear the handle, and
  \<open>dropActive\<close> is the first statement of \<open>cleanupActivePreview\<close>.
\<close>

definition clearHover :: "state \<Rightarrow> state" where
  "clearHover s = (if isSet (hoverTimeout s) then clearTimeout (the (hoverTimeout s)) s else s)"

definition clearCleanup :: "state \<Rightarrow> state" where
  "clearCleanup s = (if isSet (cleanupTimeout s) then clearTimeout (the (cleanupTimeout s)) s else s)"

definition dropActive :: "state \<Rightarrow> state" where
  "dropActive s =
     (case activePreview s of
        None \<Rightarrow> s
      | Some p \<Rightarrow> (detachPanel (element p) s)\<lparr>activePreview := None\<rparr>)"

definition resetHover :: "state \<Rightarrow> state" where
  "resetHover s =
     (if isSet (hoverTimeout s)
      then (clearTimeout (the (hoverTimeout s)) s)\<lparr>hoverTimeout := None\<rparr> else s)"

definition resetCleanup :: "state \<Rightarrow> state" where
  "resetCleanup s =
     (if isSet (cleanupTimeout s)
      then (clearTimeout (the (cleanupTimeout s)) s)\<lparr>cleanupTimeout := None\<rparr> else s)"

definition hoverLocated :: "elem \<Rightarrow> jsstring \<Rightarrow> state \<Rightarrow> state" where
  \<comment> \<open>\<open>handleLinkHover\<close> from the point where the link is located\<close>
  "hoverLocated linkElement url s =
     (if (case activePreview (clearHover s) of None \<Rightarrow> False | Some p \<Rightarrow> link p = linkElement)
      then resetCleanup (clearHover s)
      else (armShowTimer linkElement url (cleanupActivePreview (clearHover s)))
             \<lparr>leaveListeners :=
                leaveListeners (armShowTimer linkElement url (cleanupActivePreview (clearHover s)))
                @ [linkElement]\<rparr>)"

section \<open>The spec's reading of the host check\<close>



section \<open>Example documents\<close>

text \<open>
  A small document for the concrete runs below: the body (element 0), an external anchor
  (element 1) and a span carrying link attributes (element 2). The example URL
  constructor accepts three URLs that are already in serialised form.
\<close>

definition exampleURL :: "jsstring \<Rightarrow> jsstring option" where
  "exampleURL s =
     (if s \<in> {lit ''https://example.com/'', lit ''https://a.example/'', lit ''https://b.example/''}
      then Some s else None)"

definition exampleBody :: domElement where
  "exampleBody =
     \<lparr>instHTMLElement = True, instHTMLAnchorElement = False, localName = lit ''body'',
      classList = [], attributes = [], href = [], textContent = None, parentChain = [],
      descendants = [1, 2]\<rparr>"

definition exampleAnchor :: domElement where
  "exampleAnchor =
     \<lparr>instHTMLElement = True, instHTMLAnchorElement = True, localName = lit ''a'',
      classList = [lit ''external-link''],
      attributes = [(lit ''href'', lit ''https://example.com'')],
      href = lit ''https://example.com/'', textContent = Some (lit ''Example''),
      parentChain = [0], descendants = []\<rparr>"

definition exampleSpan :: domElement where
  "exampleSpan =
     \<lparr>instHTMLElement = True, instHTMLAnchorElement = False, localName = lit ''span'',
      classList = [],
      attributes = [(lit ''link-destination'', lit ''https://a.example/''),
                    (lit ''data-href'', lit ''https://b.example/'')],
      href = [], textContent = Some (lit ''two''), parentChain = [0], descendants = []\<rparr>"

definition exampleEnv :: environment where
  "exampleEnv =
     \<lparr>newURL = exampleURL,
      node = (\<lambda>i. if i = 1 then exampleAnchor else if i = 2 then exampleSpan else exampleBody),
      body = 0, editorValue = None,
      getBoundingClientRect =
        (\<lambda>_. \<lparr>rect_left = Fin 100, rect_top = Fin 100, rect_right = Fin 200,
              rect_bottom = Fin 120\<rparr>),
      panelClientRect =
        (\<lambda>_. \<lparr>rect_left = Fin 100, rect_top = Fin 5, rect_right = Fin 820,
              rect_bottom = Fin 795\<rparr>),
      innerWidth = Fin 1280, innerHeight = Fin 800, elementFromPoint = (\<lambda>_ _. None)\<rparr>"

text \<open>
  The same document with one more span (element 3): its \<open>data-href\<close> holds a relative path,
  which does not normalise, and its \<open>data-url\<close> and \<open>title\<close> hold URLs.
\<close>

definition exampleRelativeSpan :: domElement where
  "exampleRelativeSpan =
     \<lparr>instHTMLElement = True, instHTMLAnchorElement = False, localName = lit ''span'',
      classList = [],
      attributes = [(lit ''title'', lit ''https://a.example/''),
                    (lit ''data-url'', lit ''https://b.example/''),
                    (lit ''data-href'', lit ''docs/readme'')],
      href = [], textContent = Some (lit ''three''), parentChain = [0], descendants = []\<rparr>"

definition exampleEnv3 :: environment where
  "exampleEnv3 = exampleEnv\<lparr>node := (\<lambda>i. if i = 3 then exampleRelativeSpan else node exampleEnv i)\<rparr>"

text \<open>\<open>DEFAULT_SETTINGS\<close>, with the modifier key of a platform other than macOS.\<close>

definition defaultSettings :: LinkPreviewSettings where
  "defaultSettings =
     \<lparr>maxPreviewHeight = Fin 960, maxPreviewWidth = Fin 720, hoverDelay = 500,
      requireModifierKey = True, modifierKey = ModCtrl, closeOnModifierRelease = True\<rparr>"

definition exampleHover :: mouseEvent where
  \<comment> \<open>the pointer enters the anchor with Ctrl held\<close>
  "exampleHover =
     \<lparr>target = DocElement 1, relatedTarget = None, metaKey = False, ctrlKey = True,
      altKey = False, shiftKey = False\<rparr>"

definition exampleHoverSpan :: mouseEvent where
  \<comment> \<open>the pointer enters the span with Ctrl held\<close>
  "exampleHoverSpan =
     \<lparr>target = DocElement 2, relatedTarget = None, metaKey = False, ctrlKey = True,
      altKey = False, shiftKey = False\<rparr>"

section \<open>Properties of JavaScript arithmetic\<close>










text \<open>The equations that evaluate the arithmetic on given numbers.\<close>

lemmas js_eval =
  fl_def expo_def compute_bitlen roundEven_def Let_def jssub_def jsgt_def Math_min_def Math_max_def

section \<open>Properties of the bounds calculator\<close>



text \<open>
  Two more ways in which the bounds of the claim fail. A maximum height that is not a
  number (the settings tab stores \<open>Number(value)\<close> unchecked) makes the top and the height
  \<open>NaN\<close>, of which no comparison holds. A maximum width with a fraction, here the binary64
  value nearest to 300.3, makes the subtractions round: the panel's right edge
  \<open>left + width\<close> ends \<open>2 ^ (- 44)\<close> beyond \<open>viewportWidth - margin\<close>.
\<close>

lemma calculatePreviewBounds_NaN_height:
  "calculatePreviewBounds (defaultSettings\<lparr>maxPreviewHeight := NaN\<rparr>)
     \<lparr>rect_left = Fin 1000, rect_top = Fin 100, rect_right = Fin 1100, rect_bottom = Fin 120\<rparr>
     (Fin 1280) (Fin 800)
   = \<lparr>left_px = Fin 555, top_px = NaN, width_px = Fin 720, height_px = NaN, showAbove = False\<rparr>
   \<and> \<not> jsge NaN (Fin 5) \<and> \<not> jsle (jsadd NaN NaN) (Fin 795) \<and> \<not> jsle NaN NaN"
  by (simp add: calculatePreviewBounds_def defaultSettings_def js_eval jsge_def jsle_def)

lemma calculatePreviewBounds_rounding:
  "calculatePreviewBounds
     (defaultSettings\<lparr>maxPreviewWidth := Fin (5282933469138125 / 17592186044416)\<rparr>)
     \<lparr>rect_left = Fin 1000, rect_top = Fin 100, rect_right = Fin 1100, rect_bottom = Fin 120\<rparr>
     (Fin 1280) (Fin 800)
   = \<lparr>left_px = Fin (4286775934373069 / 4398046511104), top_px = Fin 5,
      width_px = Fin (5282933469138125 / 17592186044416), height_px = Fin 790,
      showAbove = False\<rparr>
   \<and> 4286775934373069 / 4398046511104 + 5282933469138125 / 17592186044416
       = (1280::real) - 5 + 1 / 17592186044416"
  by (simp add: calculatePreviewBounds_def defaultSettings_def js_eval)



section \<open>Properties of the URL extractor\<close>

lemma firstAttributeUrl_first_hit:
  assumes "\<forall>b \<in> set before. \<not> truthy (if truthy (getAttribute e b) then normalizeUrl parse (the (getAttribute e b)) else None)"
    and "getAttribute e a = Some v" and "v \<noteq> []"
    and "normalizeUrl parse v = Some u" and "u \<noteq> []"
  shows "firstAttributeUrl parse e (before @ a # after) = Some u"
  using assms by (induction before) (simp_all add: Let_def truthy_def)

text \<open>
  Claim C7, as stated, fails: \<open>link-destination\<close> is not among the attributes inspected. A
  span whose \<open>link-destination\<close> and \<open>data-href\<close> both hold URLs that normalise yields the
  \<open>data-href\<close> one.
\<close>

theorem extractUrlFromElement_link_destination_counterexample:
  "getAttribute (node exampleEnv 2) (lit ''link-destination'') = Some (lit ''https://a.example/'')
   \<and> normalizeUrl (newURL exampleEnv) (lit ''https://a.example/'') = Some (lit ''https://a.example/'')
   \<and> \<not> instHTMLAnchorElement (node exampleEnv 2)
   \<and> extractUrlFromElement exampleEnv 2 = Some (lit ''https://b.example/'')"
  by code_simp

text \<open>
  Claim C7, amended. For an element that is not a native anchor, the attributes inspected
  are \<open>data-href\<close>, \<open>data-url\<close>, \<open>href\<close>, \<open>aria-label\<close>, \<open>title\<close>, in this order
  (\<open>link-destination\<close> is not inspected): the result is the normalised URL of the first of
  them whose non-empty value normalises to a non-empty URL. For a native anchor the
  resolved \<open>href\<close> is returned as it is, whatever the attributes hold.
\<close>

theorem extractUrlFromElement_attribute_order:
  "(instHTMLAnchorElement (node doc el) \<longrightarrow>
      extractUrlFromElement doc el = Some (href (node doc el)))
   \<and> (\<not> instHTMLAnchorElement (node doc el)
        \<and> [lit ''data-href'', lit ''data-url'', lit ''href'', lit ''aria-label'', lit ''title'']
            = before @ a # after
        \<and> (\<forall>b \<in> set before. \<forall>w. getAttribute (node doc el) b = Some w \<and> w \<noteq> []
              \<longrightarrow> \<not> truthy (normalizeUrl (newURL doc) w))
        \<and> getAttribute (node doc el) a = Some v \<and> v \<noteq> []
        \<and> normalizeUrl (newURL doc) v = Some u \<and> u \<noteq> []
      \<longrightarrow> extractUrlFromElement doc el = Some u)"
proof (intro conjI impI)
  assume "instHTMLAnchorElement (node doc el)"
  then show "extractUrlFromElement doc el = Some (href (node doc el))"
    by (simp add: extractUrlFromElement_def)
next
  assume h: "\<not> instHTMLAnchorElement (node doc el)
        \<and> [lit ''data-href'', lit ''data-url'', lit ''href'', lit ''aria-label'', lit ''title'']
            = before @ a # after
        \<and> (\<forall>b \<in> set before. \<forall>w. getAttribute (node doc el) b = Some w \<and> w \<noteq> []
              \<longrightarrow> \<not> truthy (normalizeUrl (newURL doc) w))
        \<and> getAttribute (node doc el) a = Some v \<and> v \<noteq> []
        \<and> normalizeUrl (newURL doc) v = Some u \<and> u \<noteq> []"
  then have miss: "\<forall>b \<in> set before.
      \<not> truthy (if truthy (getAttribute (node doc el) b)
                then normalizeUrl (newURL doc) (the (getAttribute (node doc el) b)) else None)"
    by (auto simp: truthy_def split: option.splits)
  from h have "firstAttributeUrl (newURL doc) (node doc el) (before @ a # after) = Some u"
    by (intro firstAttributeUrl_first_hit [OF miss]) auto
  with h show "extractUrlFromElement doc el = Some u"
    by (simp add: extractUrlFromElement_def)
qed

theorem extractUrlFromElement_attribute_order_witness:
  "instHTMLAnchorElement (node exampleEnv 1)
   \<and> extractUrlFromElement exampleEnv 1 = Some (lit ''https://example.com/'')
   \<and> \<not> instHTMLAnchorElement (node exampleEnv 2)
   \<and> getAttribute (node exampleEnv 2) (lit ''data-href'') = Some (lit ''https://b.example/'')
   \<and> normalizeUrl (newURL exampleEnv) (lit ''https://b.example/'') = Some (lit ''https://b.example/'')
   \<and> extractUrlFromElement exampleEnv 2 = Some (lit ''https://b.example/'')
   \<and> \<not> instHTMLAnchorElement (node exampleEnv3 3)
   \<and> getAttribute (node exampleEnv3 3) (lit ''data-href'') = Some (lit ''docs/readme'')
   \<and> normalizeUrl (newURL exampleEnv3) (lit ''docs/readme'') = None
   \<and> getAttribute (node exampleEnv3 3) (lit ''data-url'') = Some (lit ''https://b.example/'')
   \<and> normalizeUrl (newURL exampleEnv3) (lit ''https://b.example/'') = Some (lit ''https://b.example/'')
   \<and> getAttribute (node exampleEnv3 3) (lit ''title'') = Some (lit ''https://a.example/'')
   \<and> normalizeUrl (newURL exampleEnv3) (lit ''https://a.example/'') = Some (lit ''https://a.example/'')
   \<and> extractUrlFromElement exampleEnv3 3 = Some (lit ''https://b.example/'')"
proof -
  have a: "instHTMLAnchorElement (node exampleEnv 1)"
    and h: "href (node exampleEnv 1) = lit ''https://example.com/''"
    and n: "\<not> instHTMLAnchorElement (node exampleEnv 2)"
    by (simp_all add: exampleEnv_def exampleAnchor_def exampleSpan_def)
  have g: "getAttribute (node exampleEnv 2) (lit ''data-href'') = Some (lit ''https://b.example/'')"
    by code_simp
  have u: "normalizeUrl (newURL exampleEnv) (lit ''https://b.example/'') = Some (lit ''https://b.example/'')"
    by code_simp
  have ne: "lit ''https://b.example/'' \<noteq> []"
    by (simp add: lit_def)
  have split: "[lit ''data-href'', lit ''data-url'', lit ''href'', lit ''aria-label'', lit ''title'']
      = [] @ lit ''data-href'' # [lit ''data-url'', lit ''href'', lit ''aria-label'', lit ''title'']"
    by simp
  from extractUrlFromElement_attribute_order [of exampleEnv 1] a h
  have one: "extractUrlFromElement exampleEnv 1 = Some (lit ''https://example.com/'')"
    by simp
  from extractUrlFromElement_attribute_order
    [of exampleEnv 2 "[]" "lit ''data-href''"
        "[lit ''data-url'', lit ''href'', lit ''aria-label'', lit ''title'']"
        "lit ''https://b.example/''" "lit ''https://b.example/''"]
    n g u ne split
  have two: "extractUrlFromElement exampleEnv 2 = Some (lit ''https://b.example/'')"
    by simp
  have n3: "\<not> instHTMLAnchorElement (node exampleEnv3 3)"
    by (simp add: exampleEnv3_def exampleRelativeSpan_def)
  have g3: "getAttribute (node exampleEnv3 3) (lit ''data-href'') = Some (lit ''docs/readme'')"
    "getAttribute (node exampleEnv3 3) (lit ''data-url'') = Some (lit ''https://b.example/'')"
    "getAttribute (node exampleEnv3 3) (lit ''title'') = Some (lit ''https://a.example/'')"
    by code_simp+
  have u3: "normalizeUrl (newURL exampleEnv3) (lit ''docs/readme'') = None"
    "normalizeUrl (newURL exampleEnv3) (lit ''https://b.example/'') = Some (lit ''https://b.example/'')"
    "normalizeUrl (newURL exampleEnv3) (lit ''https://a.example/'') = Some (lit ''https://a.example/'')"
    by code_simp+
  have split3: "[lit ''data-href'', lit ''data-url'', lit ''href'', lit ''aria-label'', lit ''title'']
      = [lit ''data-href''] @ lit ''data-url'' # [lit ''href'', lit ''aria-label'', lit ''title'']"
    by simp
  have miss3: "\<forall>b \<in> set [lit ''data-href'']. \<forall>w.
      getAttribute (node exampleEnv3 3) b = Some w \<and> w \<noteq> []
        \<longrightarrow> \<not> truthy (normalizeUrl (newURL exampleEnv3) w)"
    using g3(1) u3(1) by (simp add: truthy_def)
  from extractUrlFromElement_attribute_order
    [of exampleEnv3 3 "[lit ''data-href'']" "lit ''data-url''"
        "[lit ''href'', lit ''aria-label'', lit ''title'']"
        "lit ''https://b.example/''" "lit ''https://b.example/''"]
    n3 g3(2) u3(2) ne split3 miss3
  have three: "extractUrlFromElement exampleEnv3 3 = Some (lit ''https://b.example/'')"
    by blast
  from a n g u one two n3 g3 u3 three show ?thesis by simp
qed

section \<open>Properties of the panel\<close>





text \<open>
  Claim C9. When the embedded content fails to load, the text of the loading indicator
  becomes the failure message and nothing else changes: the active preview, the timers and
  their handles, the listeners and the attachment of every panel are as before.
\<close>

theorem iframe_error_changes_only_the_loading_text:
  "step (IframeError pid) s =
     s\<lparr>panels := (panels s)[pid := (panels s ! pid)\<lparr>loadingText := lit ''Failed to load preview''\<rparr>]\<rparr>
   \<and> map attached (panels (step (IframeError pid) s)) = map attached (panels s)
   \<and> activePreview (step (IframeError pid) s) = activePreview s
   \<and> timers (step (IframeError pid) s) = timers s
   \<and> hoverTimeout (step (IframeError pid) s) = hoverTimeout s
   \<and> cleanupTimeout (step (IframeError pid) s) = cleanupTimeout s"
proof (cases "pid < length (panels s)")
  case True
  have "map attached ((panels s)[pid := (panels s ! pid)\<lparr>loadingText := lit ''Failed to load preview''\<rparr>])
      = (map attached (panels s))[pid := attached (panels s ! pid)]"
    by (simp add: map_update)
  also have "\<dots> = map attached (panels s)"
    using True by (simp add: list_update_same_conv)
  finally show ?thesis
    using True by (simp add: iframeOnerror_def updatePanel_def)
next
  case False
  then have "(panels s)[pid := (panels s ! pid)\<lparr>loadingText := lit ''Failed to load preview''\<rparr>] = panels s"
    by (simp add: list_update_beyond)
  with False show ?thesis by simp
qed

section \<open>Properties of the controller\<close>

lemma wf_initial: "wellFormed (initial st e)"
  by (simp add: wellFormed_def initial_def)

lemma wf_timers_subset:
  assumes "wellFormed s" and "set ts \<subseteq> set (timers s)" and "distinct (map timerId ts)"
  shows "wellFormed (s\<lparr>timers := ts\<rparr>)"
  using assms unfolding wellFormed_def by (simp add: subset_iff) blast

lemma distinct_map_remove1:
  "distinct (map f xs) \<Longrightarrow> distinct (map f (remove1 x xs))"
proof (induction xs)
  case Nil
  then show ?case by simp
next
  case (Cons a xs)
  have "set (remove1 x xs) \<subseteq> set xs" by (rule set_remove1_subset)
  with Cons show ?case by auto
qed

lemma wf_clearTimeout: "wellFormed s \<Longrightarrow> wellFormed (clearTimeout h s)"
  unfolding clearTimeout_def
  by (rule wf_timers_subset) (auto simp: wellFormed_def distinct_map_filter)

lemma wf_remove1:
  assumes "wellFormed s"
  shows "wellFormed (s\<lparr>timers := remove1 t (timers s)\<rparr>)"
proof (rule wf_timers_subset [OF assms])
  show "set (remove1 t (timers s)) \<subseteq> set (timers s)"
    by (rule set_remove1_subset)
  from assms show "distinct (map timerId (remove1 t (timers s)))"
    by (simp add: wellFormed_def distinct_map_remove1)
qed

lemma wf_now: "wellFormed s \<Longrightarrow> wellFormed (s\<lparr>now := n\<rparr>)"
  by (simp add: wellFormed_def)

lemma wf_unset_hover:
  "wellFormed s \<Longrightarrow> \<forall>t \<in> set (timers s). \<not> isShow (callback t) \<Longrightarrow> wellFormed (s\<lparr>hoverTimeout := None\<rparr>)"
  by (simp add: wellFormed_def)

lemma wf_unset_cleanup:
  "wellFormed s \<Longrightarrow> \<forall>t \<in> set (timers s). callback t \<noteq> CleanupCheck \<Longrightarrow> wellFormed (s\<lparr>cleanupTimeout := None\<rparr>)"
  by (simp add: wellFormed_def)

lemma isSet_hover: "wellFormed s \<Longrightarrow> isSet (hoverTimeout s) \<longleftrightarrow> hoverTimeout s \<noteq> None"
  by (auto simp: wellFormed_def isSet_def split: option.splits)

lemma isSet_cleanup: "wellFormed s \<Longrightarrow> isSet (cleanupTimeout s) \<longleftrightarrow> cleanupTimeout s \<noteq> None"
  by (auto simp: wellFormed_def isSet_def split: option.splits)

lemma no_show_clearHover:
  assumes "wellFormed s"
  shows "\<forall>t \<in> set (timers (clearHover s)). \<not> isShow (callback t)"
  using assms isSet_hover [OF assms]
  by (auto simp: clearHover_def clearTimeout_def wellFormed_def)

lemma wf_clearHover: "wellFormed s \<Longrightarrow> wellFormed (clearHover s)"
  by (simp add: clearHover_def wf_clearTimeout)

lemma no_cleanup_clearCleanup:
  assumes "wellFormed s"
  shows "\<forall>t \<in> set (timers (clearCleanup s)). callback t \<noteq> CleanupCheck"
  using assms isSet_cleanup [OF assms]
  by (auto simp: clearCleanup_def clearTimeout_def wellFormed_def)

lemma wf_clearCleanup: "wellFormed s \<Longrightarrow> wellFormed (clearCleanup s)"
  by (simp add: clearCleanup_def wf_clearTimeout)

lemma cleanupActivePreview_eq:
  "cleanupActivePreview s = resetCleanup (resetHover (dropActive s))"
  by (simp add: cleanupActivePreview_def dropActive_def resetHover_def resetCleanup_def Let_def)

lemma wf_dropActive:
  assumes "wellFormed s"
  shows "wellFormed (dropActive s)"
proof (cases "activePreview s")
  case None
  with assms show ?thesis by (simp add: dropActive_def)
next
  case (Some p)
  from assms Some have only: "\<forall>i < length (panels s). attached (panels s ! i) \<longleftrightarrow> element p = i"
    by (simp add: wellFormed_def)
  have "\<forall>i < length (panels s).
      \<not> attached ((panels s)[element p := (panels s ! element p)\<lparr>attached := False\<rparr>] ! i)"
    using only by (auto simp: nth_list_update)
  with assms Some show ?thesis
    by (simp add: wellFormed_def dropActive_def detachPanel_def updatePanel_def)
qed

lemma dropActive_fields:
  "activePreview (dropActive s) = None"
  "hoverTimeout (dropActive s) = hoverTimeout s"
  "cleanupTimeout (dropActive s) = cleanupTimeout s"
  "timers (dropActive s) = timers s"
  by (simp_all add: dropActive_def detachPanel_def updatePanel_def split: option.splits)

lemma wf_resetHover:
  assumes "wellFormed s"
  shows "wellFormed (resetHover s)"
proof (cases "isSet (hoverTimeout s)")
  case True
  then have c: "clearHover s = clearTimeout (the (hoverTimeout s)) s"
    by (simp add: clearHover_def)
  from wf_unset_hover [OF wf_clearHover [OF assms] no_show_clearHover [OF assms]] c True
  show ?thesis by (simp add: resetHover_def)
next
  case False
  with assms show ?thesis by (simp add: resetHover_def)
qed

lemma resetHover_fields:
  "activePreview (resetHover s) = activePreview s"
  "cleanupTimeout (resetHover s) = cleanupTimeout s"
  "panels (resetHover s) = panels s"
  by (simp_all add: resetHover_def clearTimeout_def)

lemma resetHover_None: "wellFormed s \<Longrightarrow> hoverTimeout (resetHover s) = None"
  using isSet_hover [of s] by (auto simp: resetHover_def)

lemma wf_resetCleanup:
  assumes "wellFormed s"
  shows "wellFormed (resetCleanup s)"
proof (cases "isSet (cleanupTimeout s)")
  case True
  then have c: "clearCleanup s = clearTimeout (the (cleanupTimeout s)) s"
    by (simp add: clearCleanup_def)
  from wf_unset_cleanup [OF wf_clearCleanup [OF assms] no_cleanup_clearCleanup [OF assms]] c True
  show ?thesis by (simp add: resetCleanup_def)
next
  case False
  with assms show ?thesis by (simp add: resetCleanup_def)
qed

lemma resetCleanup_fields:
  "activePreview (resetCleanup s) = activePreview s"
  "hoverTimeout (resetCleanup s) = hoverTimeout s"
  "panels (resetCleanup s) = panels s"
  by (simp_all add: resetCleanup_def clearTimeout_def)

lemma resetCleanup_None: "wellFormed s \<Longrightarrow> cleanupTimeout (resetCleanup s) = None"
  using isSet_cleanup [of s] by (auto simp: resetCleanup_def)

lemma wf_cleanupActivePreview:
  "wellFormed s \<Longrightarrow> wellFormed (cleanupActivePreview s)"
  by (simp add: cleanupActivePreview_eq wf_dropActive wf_resetHover wf_resetCleanup)

lemma cleanupActivePreview_idle:
  assumes "wellFormed s"
  shows "activePreview (cleanupActivePreview s) = None"
    and "hoverTimeout (cleanupActivePreview s) = None"
    and "cleanupTimeout (cleanupActivePreview s) = None"
proof -
  have 1: "wellFormed (dropActive s)" by (rule wf_dropActive [OF assms])
  have 2: "wellFormed (resetHover (dropActive s))" by (rule wf_resetHover [OF 1])
  show "activePreview (cleanupActivePreview s) = None"
    by (simp add: cleanupActivePreview_eq resetCleanup_fields resetHover_fields dropActive_fields)
  show "hoverTimeout (cleanupActivePreview s) = None"
    by (simp add: cleanupActivePreview_eq resetCleanup_fields resetHover_None [OF 1])
  show "cleanupTimeout (cleanupActivePreview s) = None"
    by (simp add: cleanupActivePreview_eq resetCleanup_None [OF 2])
qed

lemma no_show_when_idle:
  "wellFormed s \<Longrightarrow> hoverTimeout s = None \<Longrightarrow> \<forall>t \<in> set (timers s). \<not> isShow (callback t)"
  by (auto simp: wellFormed_def)

lemma no_cleanup_when_unset:
  "wellFormed s \<Longrightarrow> cleanupTimeout s = None \<Longrightarrow> \<forall>t \<in> set (timers s). callback t \<noteq> CleanupCheck"
  by (auto simp: wellFormed_def)

lemma wf_armShowTimer:
  assumes "wellFormed s" and "activePreview s = None"
    and "\<forall>t \<in> set (timers s). \<not> isShow (callback t)"
  shows "wellFormed (armShowTimer lnk url s)"
  using assms
  by (auto simp: wellFormed_def armShowTimer_def setTimeout_def isShow_def)

lemma wf_startCleanupTimer:
  assumes "wellFormed s"
  shows "wellFormed (startCleanupTimer s)"
proof -
  have 1: "wellFormed (clearCleanup s)" by (rule wf_clearCleanup [OF assms])
  have 2: "\<forall>t \<in> set (timers (clearCleanup s)). callback t \<noteq> CleanupCheck"
    by (rule no_cleanup_clearCleanup [OF assms])
  have "startCleanupTimer s =
      (clearCleanup s)\<lparr>timers := timers (clearCleanup s) @
          [\<lparr>timerId = nextTimerId (clearCleanup s), due = now (clearCleanup s) + 300,
            callback = CleanupCheck\<rparr>],
        nextTimerId := Suc (nextTimerId (clearCleanup s)),
        cleanupTimeout := Some (nextTimerId (clearCleanup s))\<rparr>"
    by (simp add: startCleanupTimer_def clearCleanup_def setTimeout_def Let_def)
  moreover have "wellFormed \<dots>"
    using 1 2 by (auto simp: wellFormed_def isShow_def)
  ultimately show ?thesis by simp
qed

lemma wf_showPreview:
  assumes "wellFormed s" and "activePreview s = None"
    and "\<forall>t \<in> set (timers s). \<not> isShow (callback t)"
  shows "wellFormed (showPreview lnk url s)"
  using assms
  by (auto simp: wellFormed_def showPreview_def Let_def nth_append)

lemma wf_cleanupCheck:
  assumes "wellFormed s" and "\<forall>t \<in> set (timers s). callback t \<noteq> CleanupCheck"
  shows "wellFormed (cleanupCheck s)"
proof (cases "activePreview s \<noteq> None \<and> isMouseOverPreviewOrLink s")
  case True
  then have "cleanupCheck s = s\<lparr>cleanupTimeout := None\<rparr>"
    by (simp add: cleanupCheck_def)
  then show ?thesis
    using wf_unset_cleanup [OF assms] by simp
next
  case False
  have "cleanupTimeout (cleanupActivePreview s) = None"
    by (simp add: cleanupActivePreview_idle [OF assms(1)])
  then have "(cleanupActivePreview s)\<lparr>cleanupTimeout := None\<rparr> = cleanupActivePreview s"
    by simp
  with False have "cleanupCheck s = cleanupActivePreview s"
    by (auto simp: cleanupCheck_def)
  then show ?thesis
    using wf_cleanupActivePreview [OF assms(1)] by simp
qed

lemma attached_list_update:
  assumes "\<And>p. attached (f p) = attached p" and "i < length xs"
  shows "attached (xs[pid := f (xs ! pid)] ! i) = attached (xs ! i)"
proof (cases "i = pid")
  case True
  with assms show ?thesis by simp
next
  case False
  then show ?thesis by simp
qed

lemma wf_panels_cong:
  assumes "wellFormed s" and "length xs = length (panels s)"
    and "\<forall>i < length xs. attached (xs ! i) = attached (panels s ! i)"
  shows "wellFormed (s\<lparr>panels := xs\<rparr>)"
  using assms unfolding wellFormed_def by simp

lemma wf_updatePanel:
  assumes "wellFormed s" and "\<And>p. attached (f p) = attached p"
  shows "wellFormed (updatePanel pid f s)"
  unfolding updatePanel_def
  by (rule wf_panels_cong [OF assms(1)]) (simp_all add: attached_list_update [OF assms(2)])

lemma wf_iframeOnload: "wellFormed s \<Longrightarrow> wellFormed (iframeOnload pid s)"
  by (auto simp: wellFormed_def iframeOnload_def setTimeout_def isShow_def)

lemma wf_previewMouseEnter:
  assumes "wellFormed s"
  shows "wellFormed (previewMouseEnter s)"
proof (cases "isSet (cleanupTimeout s)")
  case True
  then have "previewMouseEnter s = (clearCleanup s)\<lparr>cleanupTimeout := None\<rparr>"
    by (simp add: previewMouseEnter_def clearCleanup_def)
  then show ?thesis
    using wf_unset_cleanup [OF wf_clearCleanup [OF assms] no_cleanup_clearCleanup [OF assms]]
    by simp
next
  case False
  with assms show ?thesis by (simp add: previewMouseEnter_def)
qed

lemma wf_fireTimer:
  assumes wf: "wellFormed s" and t: "t \<in> set (timers s)"
  shows "wellFormed (fireTimer t s)"
proof -
  let ?s0 = "s\<lparr>timers := remove1 t (timers s), now := max (now s) (due t)\<rparr>"
  have wf0: "wellFormed ?s0"
    using wf_now [OF wf_remove1 [OF wf, of t], of "max (now s) (due t)"] by simp
  have others: "\<forall>u \<in> set (remove1 t (timers s)). timerId u \<noteq> timerId t"
  proof
    fix u assume u: "u \<in> set (remove1 t (timers s))"
    from wf have d: "distinct (map timerId (timers s))" by (simp add: wellFormed_def)
    then have d': "distinct (timers s)" and inj: "inj_on timerId (set (timers s))"
      by (simp_all add: distinct_map)
    from u d' have "u \<in> set (timers s)" and "u \<noteq> t" by auto
    with inj t show "timerId u \<noteq> timerId t" by (auto simp: inj_on_def)
  qed
  show ?thesis
  proof (cases "callback t")
    case (ShowPreview lnk url)
    with wf t have h: "hoverTimeout s = Some (timerId t)" and a: "activePreview s = None"
      by (auto simp: wellFormed_def isShow_def)
    have "\<forall>u \<in> set (timers ?s0). \<not> isShow (callback u)"
    proof
      fix u assume u: "u \<in> set (timers ?s0)"
      then have "u \<in> set (timers s)"
        using set_remove1_subset [of t "timers s"] by auto
      with wf h have "isShow (callback u) \<longleftrightarrow> timerId u = timerId t"
        by (auto simp: wellFormed_def)
      with others u show "\<not> isShow (callback u)" by simp
    qed
    with wf0 a have "wellFormed (showPreview lnk url ?s0)"
      by (intro wf_showPreview) simp_all
    with ShowPreview show ?thesis by (simp add: fireTimer_def)
  next
    case CleanupCheck
    with wf t have h: "cleanupTimeout s = Some (timerId t)"
      by (auto simp: wellFormed_def)
    have "\<forall>u \<in> set (timers ?s0). callback u \<noteq> CleanupCheck"
    proof
      fix u assume u: "u \<in> set (timers ?s0)"
      then have "u \<in> set (timers s)"
        using set_remove1_subset [of t "timers s"] by auto
      with wf h have "callback u = CleanupCheck \<longleftrightarrow> timerId u = timerId t"
        by (auto simp: wellFormed_def)
      with others u show "callback u \<noteq> CleanupCheck" by simp
    qed
    with wf0 have "wellFormed (cleanupCheck ?s0)"
      by (intro wf_cleanupCheck)
    with CleanupCheck show ?thesis by (simp add: fireTimer_def)
  next
    case (Settle pid)
    have "wellFormed (settle pid ?s0)"
      unfolding settle_def by (rule wf_updatePanel [OF wf0]) simp
    with Settle show ?thesis by (simp add: fireTimer_def)
  qed
qed

lemma wf_runUntil: "wellFormed s \<Longrightarrow> wellFormed (runUntil T s)"
proof (induction T s rule: runUntil.induct)
  case (1 T s)
  show ?case
  proof (cases "earliest (timers s)")
    case None
    with "1.prems" show ?thesis
      by (simp add: runUntil.simps [of T s] wf_now)
  next
    case (Some t)
    show ?thesis
    proof (cases "due t \<le> T")
      case True
      from Some have "t \<in> set (timers s)" by (rule earliest_in_set)
      with "1.prems" have "wellFormed (fireTimer t s)" by (rule wf_fireTimer)
      with "1.IH" [OF Some True] Some True show ?thesis
        by (simp add: runUntil.simps [of T s])
    next
      case False
      with Some "1.prems" show ?thesis
        by (simp add: runUntil.simps [of T s] wf_now)
    qed
  qed
qed

lemma wf_leaveListeners: "wellFormed s \<Longrightarrow> wellFormed (s\<lparr>leaveListeners := ls\<rparr>)"
  by (simp add: wellFormed_def)

lemma handleLinkHover_eq:
  "handleLinkHover event s =
     (if target event = NonElement \<or> previewContains s (target event)
         \<or> (requireModifierKey (settings s) \<and> \<not> isModifierKeyPressed (settings s) event)
      then s
      else
        (case findLinkElement (env s) (target event) (relatedTarget event) of
           None \<Rightarrow> s
         | Some (linkElement, url) \<Rightarrow> hoverLocated linkElement url s))"
  by (simp add: handleLinkHover_def hoverLocated_def clearHover_def resetCleanup_def Let_def
      split: option.splits prod.splits)

lemma clearHover_fields:
  "activePreview (clearHover s) = activePreview s"
  "hoverTimeout (clearHover s) = hoverTimeout s"
  "cleanupTimeout (clearHover s) = cleanupTimeout s"
  "panels (clearHover s) = panels s"
  by (simp_all add: clearHover_def clearTimeout_def)

lemma wf_hoverLocated:
  assumes "wellFormed s"
  shows "wellFormed (hoverLocated linkElement url s)"
proof -
  have 1: "wellFormed (clearHover s)" by (rule wf_clearHover [OF assms])
  have 2: "wellFormed (cleanupActivePreview (clearHover s))"
    by (rule wf_cleanupActivePreview [OF 1])
  have 3: "wellFormed (armShowTimer linkElement url (cleanupActivePreview (clearHover s)))"
    by (rule wf_armShowTimer [OF 2 cleanupActivePreview_idle(1) [OF 1]
          no_show_when_idle [OF 2 cleanupActivePreview_idle(2) [OF 1]]])
  show ?thesis
    unfolding hoverLocated_def
    using wf_resetCleanup [OF 1] wf_leaveListeners [OF 3] by simp
qed

lemma wf_handleLinkHover: "wellFormed s \<Longrightarrow> wellFormed (handleLinkHover event s)"
  by (simp add: handleLinkHover_eq wf_hoverLocated split: option.splits prod.splits)

lemma handleModifierKeyDown_eq:
  "handleModifierKeyDown s =
     (if activePreview s \<noteq> None then s
      else
        (case elementFromPoint (env s) (lastMouseX s) (lastMouseY s) of
           None \<Rightarrow> s
         | Some elementUnderCursor \<Rightarrow>
            (case findLinkElement (env s) elementUnderCursor None of
               None \<Rightarrow> s
             | Some (lnk, url) \<Rightarrow> armShowTimer lnk url (clearHover s))))"
  by (simp add: handleModifierKeyDown_def clearHover_def split: option.splits prod.splits)

lemma wf_handleModifierKeyDown:
  assumes "wellFormed s"
  shows "wellFormed (handleModifierKeyDown s)"
proof (cases "activePreview s")
  case None
  have "wellFormed (armShowTimer lnk url (clearHover s))" for lnk url
    by (rule wf_armShowTimer [OF wf_clearHover [OF assms] _ no_show_clearHover [OF assms]])
       (simp add: clearHover_fields None)
  with assms show ?thesis
    by (simp add: handleModifierKeyDown_eq split: option.splits prod.splits)
next
  case (Some p)
  with assms show ?thesis by (simp add: handleModifierKeyDown_eq)
qed

lemma wf_keydown: "wellFormed s \<Longrightarrow> wellFormed (keydown key s)"
  by (simp add: keydown_def Let_def wf_handleModifierKeyDown wf_cleanupActivePreview)

lemma wf_keyup: "wellFormed s \<Longrightarrow> wellFormed (keyup key s)"
  by (simp add: keyup_def handleModifierKeyUp_def wf_cleanupActivePreview)

lemma wf_handleMouseLeave: "wellFormed s \<Longrightarrow> wellFormed (handleMouseLeave l toElement s)"
  by (simp add: handleMouseLeave_def Let_def wf_leaveListeners wf_startCleanupTimer)

lemma wf_fold_handleMouseLeave:
  "wellFormed s \<Longrightarrow> wellFormed (fold (\<lambda>l. handleMouseLeave l toElement) ls s)"
  by (induction ls arbitrary: s) (simp_all add: wf_handleMouseLeave)

lemma wf_step:
  assumes "wellFormed s"
  shows "wellFormed (step ev s)"
proof (cases ev)
  case (MouseOver event)
  with assms show ?thesis by (simp add: wf_handleLinkHover)
next
  case (MouseMove x y)
  with assms show ?thesis by (simp add: mousemove_def wellFormed_def)
next
  case (KeyDown key)
  with assms show ?thesis by (simp add: wf_keydown)
next
  case (KeyUp key)
  with assms show ?thesis by (simp add: wf_keyup)
next
  case (MouseLeave lnk toElement)
  with assms show ?thesis by (simp add: dispatchMouseLeave_def wf_fold_handleMouseLeave)
next
  case (PanelMouseEnter pid)
  with assms show ?thesis by (simp add: wf_previewMouseEnter)
next
  case (PanelMouseLeave pid)
  with assms show ?thesis by (simp add: wf_startCleanupTimer)
next
  case (IframeLoad pid)
  with assms show ?thesis by (simp add: wf_iframeOnload)
next
  case (IframeError pid)
  with assms show ?thesis by (simp add: iframeOnerror_def wf_updatePanel)
next
  case (Elapse d)
  with assms show ?thesis by (simp add: wf_runUntil)
next
  case NextTimer
  with assms show ?thesis
    by (auto simp: wf_fireTimer dest: earliest_in_set split: option.splits)
next
  case (EnvironmentChange e)
  with assms show ?thesis by (simp add: wellFormed_def)
next
  case (SettingsChange st)
  with assms show ?thesis by (simp add: wellFormed_def)
qed

lemma wf_fold_step: "wellFormed s \<Longrightarrow> wellFormed (fold step evs s)"
  by (induction evs arbitrary: s) (simp_all add: wf_step)

lemma wf_run: "wellFormed (run evs (initial st e))"
  unfolding run_def by (rule wf_fold_step [OF wf_initial])




lemma no_panel_attached_when_idle:
  assumes "wellFormed s" and "activePreview s = None"
  shows "filter attached (panels s) = []"
  using assms by (auto simp: wellFormed_def filter_empty_conv in_set_conv_nth)




lemma escape_is_no_modifier: "\<not> isModifierKeyEvent st (lit ''Escape'')"
  by (cases "modifierKey st") (simp_all add: isModifierKeyEvent_def lit_def)

lemma keydown_escape:
  "keydown (lit ''Escape'') s = (if activePreview s \<noteq> None then cleanupActivePreview s else s)"
  by (simp add: keydown_def Let_def escape_is_no_modifier)

text \<open>
  Claim C4, amended. An ESC key-down forces teardown whenever an active preview exists
  (\<open>Visible\<close> or \<open>HidePending\<close>): the preview is destroyed, no panel stays attached, both
  timer handles are cleared and no show or hide timer stays pending. Without an active
  preview (\<open>Idle\<close> or \<open>ShowPending\<close>) an ESC key-down changes nothing, so a pending show
  timer stays armed.
\<close>

theorem escape_tears_down_active_preview:
  fixes evs st e
  defines "s \<equiv> run evs (initial st e)"
  shows "(activePreview s \<noteq> None \<longrightarrow>
            activePreview (step (KeyDown (lit ''Escape'')) s) = None
          \<and> filter attached (panels (step (KeyDown (lit ''Escape'')) s)) = []
          \<and> hoverTimeout (step (KeyDown (lit ''Escape'')) s) = None
          \<and> cleanupTimeout (step (KeyDown (lit ''Escape'')) s) = None
          \<and> (\<forall>t \<in> set (timers (step (KeyDown (lit ''Escape'')) s)). \<exists>pid. callback t = Settle pid))
       \<and> (activePreview s = None \<longrightarrow> step (KeyDown (lit ''Escape'')) s = s)"
proof (intro conjI impI)
  have wf: "wellFormed s" unfolding s_def by (rule wf_run)
  have wfc: "wellFormed (cleanupActivePreview s)" by (rule wf_cleanupActivePreview [OF wf])
  note idle = cleanupActivePreview_idle [OF wf]
  {
    assume "activePreview s \<noteq> None"
    then have eq: "step (KeyDown (lit ''Escape'')) s = cleanupActivePreview s"
      by (simp add: keydown_escape)
    show "activePreview (step (KeyDown (lit ''Escape'')) s) = None"
      unfolding eq by (rule idle(1))
    show "filter attached (panels (step (KeyDown (lit ''Escape'')) s)) = []"
      unfolding eq by (rule no_panel_attached_when_idle [OF wfc idle(1)])
    show "hoverTimeout (step (KeyDown (lit ''Escape'')) s) = None"
      unfolding eq by (rule idle(2))
    show "cleanupTimeout (step (KeyDown (lit ''Escape'')) s) = None"
      unfolding eq by (rule idle(3))
    show "\<forall>t \<in> set (timers (step (KeyDown (lit ''Escape'')) s)). \<exists>pid. callback t = Settle pid"
    proof
      fix t assume t: "t \<in> set (timers (step (KeyDown (lit ''Escape'')) s))"
      then have "\<not> isShow (callback t)" and "callback t \<noteq> CleanupCheck"
        using no_show_when_idle [OF wfc idle(2)] no_cleanup_when_unset [OF wfc idle(3)]
        unfolding eq by auto
      then show "\<exists>pid. callback t = Settle pid"
        by (cases "callback t") (simp_all add: isShow_def)
    qed
  }
  {
    assume "activePreview s = None"
    then show "step (KeyDown (lit ''Escape'')) s = s"
      by (simp add: keydown_escape)
  }
qed

lemma clearHover_when_active:
  assumes wf: "wellFormed s" and act: "activePreview s = Some p"
  shows "clearHover s = s"
proof (cases "isSet (hoverTimeout s)")
  case True
  then obtain h where h: "hoverTimeout s = Some h" by (auto simp: isSet_def split: option.splits)
  have "\<forall>t \<in> set (timers s). timerId t \<noteq> h"
    using wf act h by (auto simp: wellFormed_def)
  then have "filter (\<lambda>t. timerId t \<noteq> h) (timers s) = timers s"
    by (simp add: filter_id_conv)
  with True h show ?thesis by (simp add: clearHover_def clearTimeout_def)
next
  case False
  then show ?thesis by (simp add: clearHover_def)
qed

lemma resetCleanup_eq:
  assumes wf: "wellFormed s"
  shows "resetCleanup s =
    s\<lparr>timers := filter (\<lambda>t. callback t \<noteq> CleanupCheck) (timers s), cleanupTimeout := None\<rparr>"
proof (cases "cleanupTimeout s")
  case None
  then have "\<forall>t \<in> set (timers s). callback t \<noteq> CleanupCheck"
    using no_cleanup_when_unset [OF wf] by simp
  then have f: "filter (\<lambda>t. callback t \<noteq> CleanupCheck) (timers s) = timers s"
    by (simp add: filter_id_conv)
  have "s\<lparr>timers := timers s, cleanupTimeout := None\<rparr> = s"
    using None by (cases s) simp
  with None f show ?thesis by (simp add: resetCleanup_def isSet_def)
next
  case (Some c)
  have set: "isSet (cleanupTimeout s)"
    using isSet_cleanup [OF wf] Some by simp
  have "filter (\<lambda>t. timerId t \<noteq> c) (timers s) = filter (\<lambda>t. callback t \<noteq> CleanupCheck) (timers s)"
    using wf Some by (intro filter_cong) (auto simp: wellFormed_def)
  with set Some show ?thesis by (simp add: resetCleanup_def clearTimeout_def)
qed

lemma rehover_same_link:
  assumes wf: "wellFormed s" and act: "activePreview s = Some p"
  shows "hoverLocated (link p) url s =
    s\<lparr>timers := filter (\<lambda>t. callback t \<noteq> CleanupCheck) (timers s), cleanupTimeout := None\<rparr>"
  using act by (simp add: hoverLocated_def clearHover_when_active [OF wf act] resetCleanup_eq [OF wf])

text \<open>
  Claim C5. When a hover locates the link element that owns the active preview, the state
  after the handler is the state before it with the pending hide timer cancelled and its
  handle cleared. Whether or not the handler gets as far as locating the link (it returns
  earlier when the modifier key is required and not held), the panels, the active preview
  and the show handle are the same and no show timer is pending.
\<close>

theorem rehover_same_link_only_cancels_hide_timer:
  fixes evs st e
  defines "s \<equiv> run evs (initial st e)"
  shows "\<forall>event p url.
         activePreview s = Some p
         \<and> findLinkElement (env s) (target event) (relatedTarget event) = Some (link p, url)
         \<longrightarrow> (step (MouseOver event) s = s
              \<or> step (MouseOver event) s =
                  s\<lparr>timers := filter (\<lambda>t. callback t \<noteq> CleanupCheck) (timers s),
                    cleanupTimeout := None\<rparr>)
             \<and> (target event \<noteq> NonElement \<and> \<not> previewContains s (target event)
                 \<and> \<not> (requireModifierKey (settings s) \<and> \<not> isModifierKeyPressed (settings s) event)
                 \<longrightarrow> step (MouseOver event) s =
                       s\<lparr>timers := filter (\<lambda>t. callback t \<noteq> CleanupCheck) (timers s),
                         cleanupTimeout := None\<rparr>)
             \<and> panels (step (MouseOver event) s) = panels s
             \<and> activePreview (step (MouseOver event) s) = Some p
             \<and> hoverTimeout (step (MouseOver event) s) = hoverTimeout s
             \<and> (\<forall>t \<in> set (timers (step (MouseOver event) s)). \<not> isShow (callback t))"
proof (intro allI impI)
  fix event :: mouseEvent and p url
  have wf: "wellFormed s" unfolding s_def by (rule wf_run)
  assume h: "activePreview s = Some p
         \<and> findLinkElement (env s) (target event) (relatedTarget event) = Some (link p, url)"
  then have act: "activePreview s = Some p" by simp
  let ?c = "s\<lparr>timers := filter (\<lambda>t. callback t \<noteq> CleanupCheck) (timers s), cleanupTimeout := None\<rparr>"
  have located: "hoverLocated (link p) url s = ?c"
    by (rule rehover_same_link [OF wf act])
  have cases: "step (MouseOver event) s =
      (if target event = NonElement \<or> previewContains s (target event)
          \<or> (requireModifierKey (settings s) \<and> \<not> isModifierKeyPressed (settings s) event)
       then s else ?c)"
    using h by (simp add: handleLinkHover_eq located)
  have noShow: "\<forall>t \<in> set (timers s). \<not> isShow (callback t)"
    using wf act by (auto simp: wellFormed_def)
  show "(step (MouseOver event) s = s \<or> step (MouseOver event) s = ?c)
             \<and> (target event \<noteq> NonElement \<and> \<not> previewContains s (target event)
                 \<and> \<not> (requireModifierKey (settings s) \<and> \<not> isModifierKeyPressed (settings s) event)
                 \<longrightarrow> step (MouseOver event) s = ?c)
             \<and> panels (step (MouseOver event) s) = panels s
             \<and> activePreview (step (MouseOver event) s) = Some p
             \<and> hoverTimeout (step (MouseOver event) s) = hoverTimeout s
             \<and> (\<forall>t \<in> set (timers (step (MouseOver event) s)). \<not> isShow (callback t))"
    unfolding cases using act noShow by auto
qed

section \<open>Timed runs\<close>

text \<open>
  Runs from the initial state, computed step by step: the state after a hover that locates
  a link, and what the event loop does with the show timer and the grace timer as time
  passes.
\<close>

lemma hover_from_initial:
  assumes "target event \<noteq> NonElement"
    and "\<not> (requireModifierKey st \<and> \<not> isModifierKeyPressed st event)"
    and "findLinkElement e (target event) (relatedTarget event) = Some (lnk, url)"
  shows "handleLinkHover event (initial st e) =
     \<lparr>settings = st, activePreview = None, hoverTimeout = Some 1, cleanupTimeout = None,
      lastMouseX = Fin 0, lastMouseY = Fin 0, env = e, now = 0,
      timers = [\<lparr>timerId = 1, due = hoverDelay st, callback = ShowPreview lnk url\<rparr>],
      nextTimerId = 2, panels = [], leaveListeners = [lnk]\<rparr>"
  using assms
  by (auto simp: handleLinkHover_def initial_def previewContains_def isSet_def
      cleanupActivePreview_def armShowTimer_def setTimeout_def Let_def)

lemma runUntil_none_due:
  assumes "\<forall>t \<in> set (timers s). T < due t"
  shows "runUntil T s = s\<lparr>now := max (now s) T\<rparr>"
proof (cases "earliest (timers s)")
  case None
  then show ?thesis by (simp add: runUntil.simps [of T s])
next
  case (Some t)
  then have "t \<in> set (timers s)" by (rule earliest_in_set)
  with assms have "\<not> due t \<le> T" by auto
  with Some show ?thesis by (simp add: runUntil.simps [of T s])
qed

lemma runUntil_fire:
  assumes "earliest (timers s) = Some t" and "due t \<le> T"
  shows "runUntil T s = runUntil T (fireTimer t s)"
  using assms by (simp add: runUntil.simps [of T s])

lemma leave_while_show_pending:
  "dispatchMouseLeave lnk toElement
     \<lparr>settings = st, activePreview = None, hoverTimeout = Some 1, cleanupTimeout = None,
      lastMouseX = Fin 0, lastMouseY = Fin 0, env = e, now = d,
      timers = [\<lparr>timerId = 1, due = 500, callback = ShowPreview lnk url\<rparr>],
      nextTimerId = 2, panels = [], leaveListeners = [lnk]\<rparr>
   = \<lparr>settings = st, activePreview = None, hoverTimeout = Some 1, cleanupTimeout = Some 2,
      lastMouseX = Fin 0, lastMouseY = Fin 0, env = e, now = d,
      timers = [\<lparr>timerId = 1, due = 500, callback = ShowPreview lnk url\<rparr>,
                \<lparr>timerId = 2, due = d + 300, callback = CleanupCheck\<rparr>],
      nextTimerId = 3, panels = [], leaveListeners = []\<rparr>"
  by (simp add: dispatchMouseLeave_def handleMouseLeave_def previewContains_def
      startCleanupTimer_def isSet_def setTimeout_def Let_def split: option.splits)

lemma leave_early_no_panel:
  assumes d: "d < 200"
  shows "panels (runUntil T
     \<lparr>settings = st, activePreview = None, hoverTimeout = Some 1, cleanupTimeout = Some 2,
      lastMouseX = Fin 0, lastMouseY = Fin 0, env = e, now = d,
      timers = [\<lparr>timerId = 1, due = 500, callback = ShowPreview lnk url\<rparr>,
                \<lparr>timerId = 2, due = d + 300, callback = CleanupCheck\<rparr>],
      nextTimerId = 3, panels = [], leaveListeners = []\<rparr>) = []"
    (is "panels (runUntil T ?s3) = []")
proof (cases "d + 300 \<le> T")
  case False
  with d have "\<forall>t \<in> set (timers ?s3). T < due t" by simp
  then show ?thesis by (simp add: runUntil_none_due)
next
  case True
  let ?c = "\<lparr>timerId = 2, due = d + 300, callback = CleanupCheck\<rparr>"
  from d have e: "earliest (timers ?s3) = Some ?c" by simp
  have fired: "fireTimer ?c ?s3 =
     \<lparr>settings = st, activePreview = None, hoverTimeout = None, cleanupTimeout = None,
      lastMouseX = Fin 0, lastMouseY = Fin 0, env = e, now = d + 300,
      timers = [], nextTimerId = 3, panels = [], leaveListeners = []\<rparr>"
    by (simp add: fireTimer_def cleanupCheck_def cleanupActivePreview_def isSet_def
        clearTimeout_def Let_def)
  have r: "runUntil T ?s3 = runUntil T (fireTimer ?c ?s3)"
    using e True by (intro runUntil_fire) simp_all
  show ?thesis
    by (subst r, subst fired) (simp add: runUntil_none_due)
qed

lemma leave_late_panel:
  assumes T: "500 \<le> T" "T < 700"
  shows "runUntil T
     \<lparr>settings = st, activePreview = None, hoverTimeout = Some 1, cleanupTimeout = Some 2,
      lastMouseX = Fin 0, lastMouseY = Fin 0, env = e, now = 400,
      timers = [\<lparr>timerId = 1, due = 500, callback = ShowPreview lnk url\<rparr>,
                \<lparr>timerId = 2, due = 700, callback = CleanupCheck\<rparr>],
      nextTimerId = 3, panels = [], leaveListeners = []\<rparr>
   = (showPreview lnk url
       \<lparr>settings = st, activePreview = None, hoverTimeout = Some 1, cleanupTimeout = Some 2,
        lastMouseX = Fin 0, lastMouseY = Fin 0, env = e, now = 500,
        timers = [\<lparr>timerId = 2, due = 700, callback = CleanupCheck\<rparr>],
        nextTimerId = 3, panels = [], leaveListeners = []\<rparr>)\<lparr>now := T\<rparr>"
    (is "runUntil T ?s3 = (showPreview lnk url ?s4)\<lparr>now := T\<rparr>")
proof -
  let ?h = "\<lparr>timerId = 1, due = 500, callback = ShowPreview lnk url\<rparr>"
  have e: "earliest (timers ?s3) = Some ?h" by simp
  have fired: "fireTimer ?h ?s3 = showPreview lnk url ?s4"
    by (simp add: fireTimer_def)
  have "runUntil T ?s3 = runUntil T (fireTimer ?h ?s3)"
    using e T by (intro runUntil_fire) simp_all
  also have "\<dots> = (showPreview lnk url ?s4)\<lparr>now := max (now (showPreview lnk url ?s4)) T\<rparr>"
    unfolding fired using T by (intro runUntil_none_due) (simp add: showPreview_def Let_def)
  also have "max (now (showPreview lnk url ?s4)) T = T"
    using T by (simp add: showPreview_def Let_def)
  finally show ?thesis .
qed

lemma show_pending_wait:
  assumes T: "n \<le> 500" "500 \<le> T"
  shows "runUntil T
     \<lparr>settings = st, activePreview = None, hoverTimeout = Some 1, cleanupTimeout = None,
      lastMouseX = Fin 0, lastMouseY = Fin 0, env = e, now = n,
      timers = [\<lparr>timerId = 1, due = 500, callback = ShowPreview lnk url\<rparr>],
      nextTimerId = 2, panels = [], leaveListeners = [lnk]\<rparr>
   = (showPreview lnk url
       \<lparr>settings = st, activePreview = None, hoverTimeout = Some 1, cleanupTimeout = None,
        lastMouseX = Fin 0, lastMouseY = Fin 0, env = e, now = 500,
        timers = [], nextTimerId = 2, panels = [], leaveListeners = [lnk]\<rparr>)\<lparr>now := T\<rparr>"
    (is "runUntil T ?s1 = (showPreview lnk url ?s2)\<lparr>now := T\<rparr>")
proof -
  let ?h = "\<lparr>timerId = 1, due = 500, callback = ShowPreview lnk url\<rparr>"
  have e: "earliest (timers ?s1) = Some ?h" by simp
  have fired: "fireTimer ?h ?s1 = showPreview lnk url ?s2"
    using T by (simp add: fireTimer_def max_def)
  have "runUntil T ?s1 = runUntil T (fireTimer ?h ?s1)"
    using e T by (intro runUntil_fire) simp_all
  also have "\<dots> = (showPreview lnk url ?s2)\<lparr>now := max (now (showPreview lnk url ?s2)) T\<rparr>"
    unfolding fired by (intro runUntil_none_due) (simp add: showPreview_def Let_def)
  also have "max (now (showPreview lnk url ?s2)) T = T"
    using T by (simp add: showPreview_def Let_def)
  finally show ?thesis .
qed

lemma showPreview_first_panel:
  assumes "panels s = []"
  shows "\<exists>p. panels (showPreview lnk url s) = [p] \<and> iframeSrc p = url \<and> attached p"
    and "activePreview (showPreview lnk url s) = Some \<lparr>element = 0, link = lnk\<rparr>"
  using assms by (simp_all add: showPreview_def Let_def)

text \<open>
  The states of three runs from the initial state, for a hover that locates a link and a
  hover delay of 500 ms: the pointer leaves before 200 ms; it leaves at 400 ms; it stays
  for 600 ms.
\<close>

lemma leave_before_200:
  assumes "hoverDelay st = 500" and "target event \<noteq> NonElement"
    and "\<not> (requireModifierKey st \<and> \<not> isModifierKeyPressed st event)"
    and "findLinkElement e (target event) (relatedTarget event) = Some (lnk, url)"
    and "d < 200"
  shows "panels (run [MouseOver event, Elapse d, MouseLeave lnk toElement, Elapse d']
                      (initial st e)) = []"
proof -
  note s1 = hover_from_initial [OF assms(2-4), unfolded assms(1)]
  have "runUntil d (handleLinkHover event (initial st e))
      = (handleLinkHover event (initial st e))\<lparr>now := d\<rparr>"
    using assms(5) by (subst runUntil_none_due) (simp_all add: s1 del: One_nat_def)
  with assms(5) show ?thesis
    by (simp add: run_def s1 leave_while_show_pending leave_early_no_panel del: One_nat_def)
qed

lemma leave_at_400:
  assumes "hoverDelay st = 500" and "target event \<noteq> NonElement"
    and "\<not> (requireModifierKey st \<and> \<not> isModifierKeyPressed st event)"
    and "findLinkElement e (target event) (relatedTarget event) = Some (lnk, url)"
    and "100 \<le> d'" and "d' < 300"
  shows "\<exists>p. panels (run [MouseOver event, Elapse 400, MouseLeave lnk toElement, Elapse d']
                           (initial st e)) = [p]
                 \<and> iframeSrc p = url \<and> attached p"
proof -
  note s1 = hover_from_initial [OF assms(2-4), unfolded assms(1)]
  have "runUntil 400 (handleLinkHover event (initial st e))
      = (handleLinkHover event (initial st e))\<lparr>now := 400\<rparr>"
    by (subst runUntil_none_due) (simp_all add: s1 del: One_nat_def)
  with assms(5,6) show ?thesis
    by (simp add: run_def s1 leave_while_show_pending leave_late_panel showPreview_first_panel
          del: One_nat_def)
qed

lemma stay_600:
  assumes "hoverDelay st = 500" and "target event \<noteq> NonElement"
    and "\<not> (requireModifierKey st \<and> \<not> isModifierKeyPressed st event)"
    and "findLinkElement e (target event) (relatedTarget event) = Some (lnk, url)"
  shows "run [MouseOver event, Elapse 600] (initial st e)
      = (showPreview lnk url
       \<lparr>settings = st, activePreview = None, hoverTimeout = Some 1, cleanupTimeout = None,
        lastMouseX = Fin 0, lastMouseY = Fin 0, env = e, now = 500,
        timers = [], nextTimerId = 2, panels = [], leaveListeners = [lnk]\<rparr>)\<lparr>now := 600\<rparr>"
  by (simp add: run_def hover_from_initial [OF assms(2-4), unfolded assms(1)] show_pending_wait
      del: One_nat_def)

lemma escape_at_100:
  assumes "hoverDelay st = 500" and "target event \<noteq> NonElement"
    and "\<not> (requireModifierKey st \<and> \<not> isModifierKeyPressed st event)"
    and "findLinkElement e (target event) (relatedTarget event) = Some (lnk, url)"
  shows "activePreview (run [MouseOver event, Elapse 100] (initial st e)) = None"
    and "timers (run [MouseOver event, Elapse 100, KeyDown (lit ''Escape'')] (initial st e))
      = [\<lparr>timerId = 1, due = 500, callback = ShowPreview lnk url\<rparr>]"
    and "\<exists>p. panels (run [MouseOver event, Elapse 100, KeyDown (lit ''Escape''), Elapse 400]
                  (initial st e)) = [p] \<and> iframeSrc p = url \<and> attached p"
proof -
  note s1 = hover_from_initial [OF assms(2-4), unfolded assms(1)]
  have w: "runUntil 100 (handleLinkHover event (initial st e))
      = (handleLinkHover event (initial st e))\<lparr>now := 100\<rparr>"
    by (subst runUntil_none_due) (simp_all add: s1 del: One_nat_def)
  show "activePreview (run [MouseOver event, Elapse 100] (initial st e)) = None"
    using w by (simp add: run_def s1 del: One_nat_def)
  show "timers (run [MouseOver event, Elapse 100, KeyDown (lit ''Escape'')] (initial st e))
      = [\<lparr>timerId = 1, due = 500, callback = ShowPreview lnk url\<rparr>]"
    using w by (simp add: run_def s1 keydown_escape del: One_nat_def)
  show "\<exists>p. panels (run [MouseOver event, Elapse 100, KeyDown (lit ''Escape''), Elapse 400]
                  (initial st e)) = [p] \<and> iframeSrc p = url \<and> attached p"
    using w
    by (simp add: run_def s1 keydown_escape show_pending_wait showPreview_first_panel
        del: One_nat_def)
qed

text \<open>The example hovers locate their links in the example document.\<close>

lemma example_locates_anchor:
  "findLinkElement exampleEnv (target exampleHover) (relatedTarget exampleHover)
     = Some (1, lit ''https://example.com/'')"
  by code_simp


lemma example_gate:
  "hoverDelay defaultSettings = 500"
  "target exampleHover \<noteq> NonElement"
  "\<not> (requireModifierKey defaultSettings \<and> \<not> isModifierKeyPressed defaultSettings exampleHover)"
  "target exampleHoverSpan \<noteq> NonElement"
  "\<not> (requireModifierKey defaultSettings \<and> \<not> isModifierKeyPressed defaultSettings exampleHoverSpan)"
  by (simp_all add: defaultSettings_def exampleHover_def exampleHoverSpan_def isModifierKeyPressed_def)

lemmas example_visible =
  stay_600 [OF example_gate(1) example_gate(2) example_gate(3) example_locates_anchor]

text \<open>
  Claim C2, as stated, fails: with the default hover delay of 500 ms, hovering the example
  anchor for 400 ms and then leaving it still creates a panel (at 500 ms).
\<close>

theorem hover_delay_leave_at_400_counterexample:
  "panels (run [MouseOver exampleHover, Elapse 400, MouseLeave 1 None, Elapse 100]
             (initial defaultSettings exampleEnv)) \<noteq> []"
  using leave_at_400 [OF example_gate(1) example_gate(2) example_gate(3) example_locates_anchor,
      of 100 None]
  by auto

text \<open>
  Claim C2, amended. With a hover delay of 500 ms, leaving the link does not cancel the
  show timer: it starts the grace timer of 300 ms, whose callback cancels the show timer.
  So no panel is ever created when the pointer leaves less than 200 ms after the hover
  began; when it leaves after 400 ms the show timer fires at 500 ms and one panel is
  created for the link's URL. Hovering for 600 ms without leaving creates exactly one
  panel, targeting the link's resolved URL.
\<close>

theorem hover_delay_scenario:
  assumes delay: "hoverDelay st = 500"
    and tgt: "target event \<noteq> NonElement"
    and gate: "\<not> (requireModifierKey st \<and> \<not> isModifierKeyPressed st event)"
    and loc: "findLinkElement e (target event) (relatedTarget event) = Some (lnk, url)"
  shows "(\<forall>d d' toElement. d < 200 \<longrightarrow>
            panels (run [MouseOver event, Elapse d, MouseLeave lnk toElement, Elapse d']
                      (initial st e)) = [])
       \<and> (\<forall>d' toElement. 100 \<le> d' \<and> d' < 300 \<longrightarrow>
            (\<exists>p. panels (run [MouseOver event, Elapse 400, MouseLeave lnk toElement, Elapse d']
                           (initial st e)) = [p]
                 \<and> iframeSrc p = url \<and> attached p))
       \<and> (\<exists>p. panels (run [MouseOver event, Elapse 600] (initial st e)) = [p]
               \<and> iframeSrc p = url \<and> attached p)
       \<and> activePreview (run [MouseOver event, Elapse 600] (initial st e))
           = Some \<lparr>element = 0, link = lnk\<rparr>"
  using leave_before_200 [OF assms] leave_at_400 [OF assms]
  by (simp add: stay_600 [OF assms] showPreview_first_panel)

theorem hover_delay_scenario_witness:
  "hoverDelay defaultSettings = 500
   \<and> findLinkElement exampleEnv (target exampleHover) (relatedTarget exampleHover)
       = Some (1, lit ''https://example.com/'')
   \<and> panels (run [MouseOver exampleHover, Elapse 100, MouseLeave 1 None, Elapse 1000]
               (initial defaultSettings exampleEnv)) = []
   \<and> activePreview (run [MouseOver exampleHover, Elapse 600] (initial defaultSettings exampleEnv))
       = Some \<lparr>element = 0, link = 1\<rparr>"
proof -
  note inst = hover_delay_scenario
      [OF example_gate(1) example_gate(2) example_gate(3) example_locates_anchor]
  from inst have "panels (run [MouseOver exampleHover, Elapse 100, MouseLeave 1 None, Elapse 1000]
               (initial defaultSettings exampleEnv)) = []"
    by simp
  moreover from inst have "activePreview (run [MouseOver exampleHover, Elapse 600]
        (initial defaultSettings exampleEnv)) = Some \<lparr>element = 0, link = 1\<rparr>"
    by blast
  ultimately show ?thesis
    using example_gate(1) example_locates_anchor by blast
qed


text \<open>
  Claim C4, as stated, fails in \<open>ShowPending\<close>: the handler calls the teardown only when a
  preview is active. An ESC 100 ms after the hover leaves the show timer pending, and the
  panel is created at 500 ms.
\<close>

theorem escape_while_show_pending_counterexample:
  "activePreview (run [MouseOver exampleHover, Elapse 100] (initial defaultSettings exampleEnv)) = None
   \<and> timers (run [MouseOver exampleHover, Elapse 100, KeyDown (lit ''Escape'')]
               (initial defaultSettings exampleEnv))
       = [\<lparr>timerId = 1, due = 500, callback = ShowPreview 1 (lit ''https://example.com/'')\<rparr>]
   \<and> panels (run [MouseOver exampleHover, Elapse 100, KeyDown (lit ''Escape''), Elapse 400]
               (initial defaultSettings exampleEnv)) \<noteq> []"
  using escape_at_100 [OF example_gate(1) example_gate(2) example_gate(3) example_locates_anchor]
  by auto

theorem escape_tears_down_active_preview_witness:
  "activePreview (run [MouseOver exampleHover, Elapse 600] (initial defaultSettings exampleEnv))
       = Some \<lparr>element = 0, link = 1\<rparr>
   \<and> activePreview (step (KeyDown (lit ''Escape''))
         (run [MouseOver exampleHover, Elapse 600] (initial defaultSettings exampleEnv))) = None
   \<and> filter attached (panels (step (KeyDown (lit ''Escape''))
         (run [MouseOver exampleHover, Elapse 600] (initial defaultSettings exampleEnv)))) = []
   \<and> activePreview (run [MouseOver exampleHover, Elapse 100] (initial defaultSettings exampleEnv)) = None
   \<and> step (KeyDown (lit ''Escape''))
         (run [MouseOver exampleHover, Elapse 100] (initial defaultSettings exampleEnv))
       = run [MouseOver exampleHover, Elapse 100] (initial defaultSettings exampleEnv)"
proof -
  let ?v = "run [MouseOver exampleHover, Elapse 600] (initial defaultSettings exampleEnv)"
  let ?p = "run [MouseOver exampleHover, Elapse 100] (initial defaultSettings exampleEnv)"
  have v: "activePreview ?v = Some \<lparr>element = 0, link = 1\<rparr>"
    unfolding example_visible by (simp add: showPreview_def Let_def)
  have p: "activePreview ?p = None"
    by (rule escape_at_100(1) [OF example_gate(1) example_gate(2) example_gate(3) example_locates_anchor])
  from escape_tears_down_active_preview [of "[MouseOver exampleHover, Elapse 600]" defaultSettings exampleEnv] v
  have 1: "activePreview (step (KeyDown (lit ''Escape'')) ?v) = None
      \<and> filter attached (panels (step (KeyDown (lit ''Escape'')) ?v)) = []"
    by simp
  from escape_tears_down_active_preview [of "[MouseOver exampleHover, Elapse 100]" defaultSettings exampleEnv] p
  have 2: "step (KeyDown (lit ''Escape'')) ?p = ?p"
    by blast
  from v p 1 2 show ?thesis by blast
qed

lemma example_hide_pending:
  "activePreview (run [MouseOver exampleHover, Elapse 600, MouseLeave 1 None]
        (initial defaultSettings exampleEnv)) = Some \<lparr>element = 0, link = 1\<rparr>"
  "cleanupTimeout (run [MouseOver exampleHover, Elapse 600, MouseLeave 1 None]
        (initial defaultSettings exampleEnv)) = Some 2"
  "timers (run [MouseOver exampleHover, Elapse 600, MouseLeave 1 None]
        (initial defaultSettings exampleEnv)) = [\<lparr>timerId = 2, due = 900, callback = CleanupCheck\<rparr>]"
  "settings (run [MouseOver exampleHover, Elapse 600, MouseLeave 1 None]
        (initial defaultSettings exampleEnv)) = defaultSettings"
  "env (run [MouseOver exampleHover, Elapse 600, MouseLeave 1 None]
        (initial defaultSettings exampleEnv)) = exampleEnv"
proof -
  have r: "run [MouseOver exampleHover, Elapse 600, MouseLeave 1 None] (initial defaultSettings exampleEnv)
      = step (MouseLeave 1 None) (run [MouseOver exampleHover, Elapse 600] (initial defaultSettings exampleEnv))"
    by (simp add: run_def)
  show "activePreview (run [MouseOver exampleHover, Elapse 600, MouseLeave 1 None]
        (initial defaultSettings exampleEnv)) = Some \<lparr>element = 0, link = 1\<rparr>"
    and "cleanupTimeout (run [MouseOver exampleHover, Elapse 600, MouseLeave 1 None]
        (initial defaultSettings exampleEnv)) = Some 2"
    and "timers (run [MouseOver exampleHover, Elapse 600, MouseLeave 1 None]
        (initial defaultSettings exampleEnv)) = [\<lparr>timerId = 2, due = 900, callback = CleanupCheck\<rparr>]"
    and "settings (run [MouseOver exampleHover, Elapse 600, MouseLeave 1 None]
        (initial defaultSettings exampleEnv)) = defaultSettings"
    and "env (run [MouseOver exampleHover, Elapse 600, MouseLeave 1 None]
        (initial defaultSettings exampleEnv)) = exampleEnv"
    unfolding r example_visible
    by (simp_all add: showPreview_def dispatchMouseLeave_def handleMouseLeave_def
        previewContains_def startCleanupTimer_def isSet_def setTimeout_def Let_def)
qed

theorem rehover_same_link_only_cancels_hide_timer_witness:
  "activePreview (run [MouseOver exampleHover, Elapse 600, MouseLeave 1 None]
        (initial defaultSettings exampleEnv)) = Some \<lparr>element = 0, link = 1\<rparr>
   \<and> cleanupTimeout (run [MouseOver exampleHover, Elapse 600, MouseLeave 1 None]
        (initial defaultSettings exampleEnv)) = Some 2
   \<and> cleanupTimeout (step (MouseOver exampleHover) (run [MouseOver exampleHover, Elapse 600, MouseLeave 1 None]
        (initial defaultSettings exampleEnv))) = None
   \<and> timers (step (MouseOver exampleHover) (run [MouseOver exampleHover, Elapse 600, MouseLeave 1 None]
        (initial defaultSettings exampleEnv))) = []
   \<and> panels (step (MouseOver exampleHover) (run [MouseOver exampleHover, Elapse 600, MouseLeave 1 None]
        (initial defaultSettings exampleEnv)))
      = panels (run [MouseOver exampleHover, Elapse 600, MouseLeave 1 None]
        (initial defaultSettings exampleEnv))"
proof -
  let ?s = "run [MouseOver exampleHover, Elapse 600, MouseLeave 1 None]
        (initial defaultSettings exampleEnv)"
  note h = example_hide_pending
  have out: "\<not> previewContains ?s (target exampleHover)"
    unfolding previewContains_def h(1) by (simp add: exampleHover_def)
  have gate: "\<not> (requireModifierKey (settings ?s) \<and> \<not> isModifierKeyPressed (settings ?s) exampleHover)"
    unfolding h(4) by (rule example_gate(3))
  have loc: "findLinkElement (env ?s) (target exampleHover) (relatedTarget exampleHover)
      = Some (link \<lparr>element = 0, link = 1\<rparr>, lit ''https://example.com/'')"
    unfolding h(5) using example_locates_anchor by simp
  from rehover_same_link_only_cancels_hide_timer
      [of "[MouseOver exampleHover, Elapse 600, MouseLeave 1 None]" defaultSettings exampleEnv,
       rule_format, of "\<lparr>element = 0, link = 1\<rparr>" exampleHover "lit ''https://example.com/''"]
    h(1) example_gate(2) out gate loc
  have eq: "step (MouseOver exampleHover) ?s
      = ?s\<lparr>timers := filter (\<lambda>t. callback t \<noteq> CleanupCheck) (timers ?s), cleanupTimeout := None\<rparr>"
    by blast
  have "cleanupTimeout (step (MouseOver exampleHover) ?s) = None"
    and "timers (step (MouseOver exampleHover) ?s) = []"
    and "panels (step (MouseOver exampleHover) ?s) = panels ?s"
    unfolding eq by (simp_all add: h(3) del: One_nat_def)
  with h(1) h(2) show ?thesis by blast
qed

text \<open>
  Claim C10. With the require-modifier setting disabled, a key-up event changes nothing,
  whatever the key and whatever the close-on-release setting.
\<close>

theorem keyup_without_require_modifier:
  "\<not> requireModifierKey (settings s) \<Longrightarrow> step (KeyUp key) s = s"
  by (simp add: keyup_def)

theorem keyup_without_require_modifier_witness:
  "\<not> requireModifierKey (settings (run [MouseOver exampleHover, Elapse 600,
          SettingsChange (defaultSettings\<lparr>requireModifierKey := False\<rparr>)]
        (initial defaultSettings exampleEnv)))
   \<and> closeOnModifierRelease (settings (run [MouseOver exampleHover, Elapse 600,
          SettingsChange (defaultSettings\<lparr>requireModifierKey := False\<rparr>)]
        (initial defaultSettings exampleEnv)))
   \<and> activePreview (step (KeyUp (lit ''Control'')) (run [MouseOver exampleHover, Elapse 600,
          SettingsChange (defaultSettings\<lparr>requireModifierKey := False\<rparr>)]
        (initial defaultSettings exampleEnv))) = Some \<lparr>element = 0, link = 1\<rparr>"
proof -
  let ?s = "run [MouseOver exampleHover, Elapse 600,
          SettingsChange (defaultSettings\<lparr>requireModifierKey := False\<rparr>)]
        (initial defaultSettings exampleEnv)"
  have r: "?s = (run [MouseOver exampleHover, Elapse 600] (initial defaultSettings exampleEnv))
      \<lparr>settings := defaultSettings\<lparr>requireModifierKey := False\<rparr>\<rparr>"
    by (simp add: run_def)
  have a: "\<not> requireModifierKey (settings ?s)"
    and b: "closeOnModifierRelease (settings ?s)"
    and c: "activePreview ?s = Some \<lparr>element = 0, link = 1\<rparr>"
    unfolding r example_visible by (simp_all add: showPreview_def Let_def defaultSettings_def)
  from keyup_without_require_modifier [OF a, of "lit ''Control''"] a b c
  show ?thesis by simp
qed

end
